theory Spec2Isabelle
  imports Main "HOL-Library.Word"
begin

section \<open>Go library functions used by omon.go\<close>

text \<open>
  A Go string is a sequence of bytes; \<^typ>\<open>string\<close> is a list of 8-bit characters, so the
  two agree byte for byte.  The functions of this section are the ones \<^verbatim>\<open>omon.go\<close> calls
  from the packages \<^verbatim>\<open>strings\<close> and \<^verbatim>\<open>strconv\<close>.
\<close>

subsection \<open>strings.HasPrefix, strings.Contains, strings.TrimPrefix\<close>

fun HasPrefix :: "string \<Rightarrow> string \<Rightarrow> bool" where
  "HasPrefix s [] = True"
| "HasPrefix [] (p # ps) = False"
| "HasPrefix (c # cs) (p # ps) = (c = p \<and> HasPrefix cs ps)"

fun Contains :: "string \<Rightarrow> string \<Rightarrow> bool" where
  "Contains [] sub = (sub = [])"
| "Contains (c # cs) sub = (HasPrefix (c # cs) sub \<or> Contains cs sub)"

definition TrimPrefix :: "string \<Rightarrow> string \<Rightarrow> string" where
  "TrimPrefix s p = (if HasPrefix s p then drop (length p) s else s)"

subsection \<open>White space: unicode.IsSpace on UTF-8 text\<close>

text \<open>
  \<^verbatim>\<open>strings.Fields\<close> and \<^verbatim>\<open>strings.TrimSpace\<close> cut at the runes for which
  \<^verbatim>\<open>unicode.IsSpace\<close> holds: U+0009 to U+000D, U+0020, U+0085, U+00A0, U+1680, U+2000 to
  U+200A, U+2028, U+2029, U+202F, U+205F and U+3000.  \<open>spaceRunes\<close> lists their UTF-8
  encodings.  Every encoding starts with an ASCII byte or a UTF-8 lead byte and no lead
  byte is a continuation byte, so a white-space rune stands in a Go string exactly
  where one of these byte sequences stands.
\<close>

definition spaceRunes :: "string list" where
  "spaceRunes =
    [[CHR 0x09], [CHR 0x0A], [CHR 0x0B], [CHR 0x0C], [CHR 0x0D], [CHR 0x20],
     [CHR 0xC2, CHR 0x85], [CHR 0xC2, CHR 0xA0],
     [CHR 0xE1, CHR 0x9A, CHR 0x80],
     [CHR 0xE2, CHR 0x80, CHR 0x80], [CHR 0xE2, CHR 0x80, CHR 0x81],
     [CHR 0xE2, CHR 0x80, CHR 0x82], [CHR 0xE2, CHR 0x80, CHR 0x83],
     [CHR 0xE2, CHR 0x80, CHR 0x84], [CHR 0xE2, CHR 0x80, CHR 0x85],
     [CHR 0xE2, CHR 0x80, CHR 0x86], [CHR 0xE2, CHR 0x80, CHR 0x87],
     [CHR 0xE2, CHR 0x80, CHR 0x88], [CHR 0xE2, CHR 0x80, CHR 0x89],
     [CHR 0xE2, CHR 0x80, CHR 0x8A],
     [CHR 0xE2, CHR 0x80, CHR 0xA8], [CHR 0xE2, CHR 0x80, CHR 0xA9],
     [CHR 0xE2, CHR 0x80, CHR 0xAF], [CHR 0xE2, CHR 0x81, CHR 0x9F],
     [CHR 0xE3, CHR 0x80, CHR 0x80]]"

text \<open>The number of bytes of the white-space rune a string starts with, 0 if it starts with none.\<close>

definition spaceWidth :: "string \<Rightarrow> nat" where
  "spaceWidth s = (case find (HasPrefix s) spaceRunes of None \<Rightarrow> 0 | Some p \<Rightarrow> length p)"

text \<open>The same for the rune a string ends with.\<close>

definition spaceWidthEnd :: "string \<Rightarrow> nat" where
  "spaceWidthEnd s =
     (case find (\<lambda>p. HasPrefix (rev s) (rev p)) spaceRunes of None \<Rightarrow> 0 | Some p \<Rightarrow> length p)"

lemma spaceWidth_le: "spaceWidth s \<le> length s"
proof -
  have "HasPrefix s p \<Longrightarrow> length p \<le> length s" for p
    by (induction s p rule: HasPrefix.induct) auto
  then show ?thesis
    by (auto simp: spaceWidth_def split: option.splits dest!: find_Some_iff[THEN iffD1])
qed

lemma spaceWidth_Nil [simp]: "spaceWidth [] = 0"
  using spaceWidth_le [of "[]"] by simp

lemma spaceWidthEnd_le: "spaceWidthEnd s \<le> length s"
proof -
  have "HasPrefix t p \<Longrightarrow> length p \<le> length t" for p t
    by (induction t p rule: HasPrefix.induct) auto
  from this [of "rev s" "rev p" for p] show ?thesis
    by (auto simp: spaceWidthEnd_def split: option.splits dest!: find_Some_iff[THEN iffD1])
qed

subsection \<open>strings.Fields and strings.TrimSpace\<close>

text \<open>
  \<^verbatim>\<open>strings.Fields(s)\<close>: the maximal runs of bytes between white-space runes, in order;
  no empty field.  \<open>fieldsFrom cur s\<close> carries the field being read.
\<close>

function fieldsFrom :: "string \<Rightarrow> string \<Rightarrow> string list" where
  "fieldsFrom cur [] = (if cur = [] then [] else [cur])"
| "fieldsFrom cur (c # cs) =
     (if spaceWidth (c # cs) = 0 then fieldsFrom (cur @ [c]) cs
      else (if cur = [] then [] else [cur]) @ fieldsFrom [] (drop (spaceWidth (c # cs)) (c # cs)))"
  by pat_completeness auto
termination
  by (relation "measure (\<lambda>(cur, s). length s)") auto

definition Fields :: "string \<Rightarrow> string list" where
  "Fields s = fieldsFrom [] s"

function TrimLeft :: "string \<Rightarrow> string" where
  "TrimLeft s = (if spaceWidth s = 0 then s else TrimLeft (drop (spaceWidth s) s))"
  by pat_completeness auto
termination
proof (relation "measure length")
  show "wf (measure length)" by simp
next
  fix s :: string
  assume "spaceWidth s \<noteq> 0"
  with spaceWidth_le [of s] show "(drop (spaceWidth s) s, s) \<in> measure length"
    by (cases s) auto
qed

function TrimRight :: "string \<Rightarrow> string" where
  "TrimRight s =
     (if spaceWidthEnd s = 0 then s else TrimRight (take (length s - spaceWidthEnd s) s))"
  by pat_completeness auto
termination
proof (relation "measure length")
  show "wf (measure length)" by simp
next
  fix s :: string
  assume "spaceWidthEnd s \<noteq> 0"
  with spaceWidthEnd_le [of s] show "(take (length s - spaceWidthEnd s) s, s) \<in> measure length"
    by (cases s) auto
qed

definition TrimSpace :: "string \<Rightarrow> string" where
  "TrimSpace s = TrimRight (TrimLeft s)"

subsection \<open>strconv.ParseInt(s, 10, 64)\<close>

text \<open>
  Go's \<^verbatim>\<open>int64\<close> and \<^verbatim>\<open>uint64\<close> are 64-bit words: \<open>+\<close> wraps, \<open>sint\<close> reads an
  \<^verbatim>\<open>int64\<close>, \<open>unat\<close> a \<^verbatim>\<open>uint64\<close>.  Go's \<^verbatim>\<open>int\<close> is taken at its 64-bit width.
\<close>

type_synonym int64 = "64 word"
type_synonym uint64 = "64 word"
type_synonym goint = "64 word"

datatype num_error = ErrSyntax | ErrRange

text \<open>\<^verbatim>\<open>lower(c) = c | ('x' - 'X')\<close>, on byte codes.\<close>

definition lower :: "nat \<Rightarrow> nat" where
  "lower c = or c 32"

text \<open>
  The digit a byte stands for in \<^verbatim>\<open>ParseUint\<close>: \<^verbatim>\<open>'0'..'9'\<close> (codes 48 to 57) give 0 to 9,
  a letter (codes 97 to 122 once lowered) gives 10 to 35, any other byte is a syntax
  error.
\<close>

definition digitValue :: "char \<Rightarrow> nat option" where
  "digitValue ch =
     (let c = (of_char ch :: nat) in
      if 48 \<le> c \<and> c \<le> 57 then Some (c - 48)
      else if 97 \<le> lower c \<and> lower c \<le> 122 then Some (lower c - 97 + 10)
      else None)"

definition maxUint64 :: uint64 where
  "maxUint64 = - 1"

text \<open>\<^verbatim>\<open>cutoff = maxUint64/10 + 1\<close>: the least \<open>n\<close> with \<open>n * 10\<close> beyond 64 bits.\<close>

definition cutoff10 :: uint64 where
  "cutoff10 = maxUint64 div 10 + 1"

text \<open>
  The loop of \<^verbatim>\<open>ParseUint\<close> for base 10 and bit size 64 (\<^verbatim>\<open>maxVal = 1<<64 - 1\<close>).  It
  returns at the first byte that is no decimal digit with value 0 and \<open>ErrSyntax\<close>, and at
  the first digit that takes the value beyond 64 bits with \<open>maxVal\<close> and \<open>ErrRange\<close>,
  without reading the bytes after it.
\<close>

fun parseUintLoop :: "string \<Rightarrow> uint64 \<Rightarrow> uint64 \<times> num_error option" where
  "parseUintLoop [] n = (n, None)"
| "parseUintLoop (c # cs) n =
     (case digitValue c of
        None \<Rightarrow> (0, Some ErrSyntax)
      | Some d \<Rightarrow>
          if d \<ge> 10 then (0, Some ErrSyntax)
          else if n \<ge> cutoff10 then (maxUint64, Some ErrRange)
          else
            let n10 = n * 10; n1 = n10 + of_nat d
            in if n1 < n10 \<or> n1 > maxUint64 then (maxUint64, Some ErrRange)
               else parseUintLoop cs n1)"

definition ParseUint :: "string \<Rightarrow> uint64 \<times> num_error option" where
  "ParseUint s = (if s = [] then (0, Some ErrSyntax) else parseUintLoop s 0)"

text \<open>
  \<^verbatim>\<open>ParseInt\<close>: an optional sign, then \<^verbatim>\<open>ParseUint\<close>; a syntax error gives 0, a value out
  of the \<^verbatim>\<open>int64\<close> range gives the bound of its sign (\<^verbatim>\<open>cutoff = 1 << 63\<close>) with
  \<open>ErrRange\<close>.
\<close>

definition ParseInt :: "string \<Rightarrow> int64 \<times> num_error option" where
  "ParseInt s0 =
     (if s0 = [] then (0, Some ErrSyntax)
      else
        let neg = (hd s0 = CHR ''-'');
            s = (if hd s0 = CHR ''+'' \<or> hd s0 = CHR ''-'' then tl s0 else s0);
            (un, err) = ParseUint s;
            cutoff = (2 ^ 63 :: uint64)
        in if err \<noteq> None \<and> err \<noteq> Some ErrRange then (0, err)
           else if \<not> neg \<and> un \<ge> cutoff then (cutoff - 1, Some ErrRange)
           else if neg \<and> un > cutoff then (- cutoff, Some ErrRange)
           else (if neg then - un else un, None))"

subsection \<open>hex.EncodeToString\<close>

definition hextable :: string where
  "hextable = ''0123456789abcdef''"

fun EncodeToString :: "string \<Rightarrow> string" where
  "EncodeToString [] = []"
| "EncodeToString (v # vs) =
     hextable ! ((of_char v :: nat) div 16) # hextable ! ((of_char v :: nat) mod 16)
       # EncodeToString vs"

section \<open>The monitor's data\<close>

text \<open>
  Clock readings (\<^verbatim>\<open>time.Time\<close>) are integers; the zero \<^verbatim>\<open>time.Time\<close> is 0.
\<close>

type_synonym time = int

record StreamInfo =
  ID :: string
  Target :: string
  BytesSent :: int64
  BytesReceived :: int64
  StartTime :: time
  EndTime :: time
  Closed :: bool

text \<open>
  What the program prints.  A line is kept as the format it was printed with and the
  values it was given; rendering (\<^verbatim>\<open>%d\<close>, \<^verbatim>\<open>%.2f\<close>, the clock prefix, rounding the duration
  to a millisecond) is left to the reader of the line.
\<close>

datatype color = ColorReset | ColorRed | ColorGreen | ColorYellow | ColorCyan | ColorGray | ColorBlue

datatype message =
    StreamStatus string string string
      \<comment> \<open>\<^verbatim>\<open>"Stream %s %s | Target: %s"\<close>: id, status, target\<close>
  | StreamFinished string int64 int64 time string string
      \<comment> \<open>\<^verbatim>\<open>"Stream %s FINISHED: S:%d R:%d bytes | %v | To: %s (%s)"\<close>\<close>
  | TotalNow int64 int64 goint goint
      \<comment> \<open>\<^verbatim>\<open>"Total now: S:%d R:%d bytes | All Streams: %d | Active: %d"\<close>\<close>
  | TenMinReport int64 int64 int64 goint
      \<comment> \<open>\<^verbatim>\<open>"--- 10 min Report | Sent: ... | Received: ... | Total Streams: %d | Active Streams: %d ---"\<close>\<close>
  | ReadError string
      \<comment> \<open>\<^verbatim>\<open>"Error reading from Tor control port: %v"\<close>\<close>
  | Authenticated string
      \<comment> \<open>\<^verbatim>\<open>"Successfully authenticated with Tor on %s"\<close>\<close>
  | MonitorStarted
  | LoggingToFile

text \<open>
  \<^verbatim>\<open>TorMonitor\<close>.  \<open>conn\<close> is what has been written to the connection, \<open>reader\<close> the
  lines the connection still delivers (each as \<^verbatim>\<open>ReadString('\n')\<close> returns it; a read
  from the empty list fails), \<open>logger\<close> the lines written to the traffic log.  The mutex
  makes every handler atomic, so a handler is a function from state to state.  Two more
  fields stand for the process around the struct: \<open>stdout\<close>, the console lines with their
  colour, and \<open>clock\<close>, the reading \<^verbatim>\<open>time.Now()\<close> gives.
\<close>

record TorMonitor =
  address :: string
  conn :: "string list"
  reader :: "string list"
  streams :: "string \<rightharpoonup> StreamInfo"
  logger :: "message list"
  stats :: "string \<rightharpoonup> int64"
  report :: "string \<rightharpoonup> int64"
  activeStreams :: goint
  totalStreams :: goint
  stdout :: "(color \<times> message) list"
  clock :: time

text \<open>Reading a \<^verbatim>\<open>map[string]int64\<close>: a missing key reads as 0.\<close>

definition mapGet :: "(string \<rightharpoonup> int64) \<Rightarrow> string \<Rightarrow> int64" where
  "mapGet c k = (case c k of None \<Rightarrow> 0 | Some v \<Rightarrow> v)"

text \<open>\<^verbatim>\<open>c[k] += v\<close> (and \<^verbatim>\<open>c[k]++\<close> with \<open>v = 1\<close>).\<close>

definition mapAdd :: "(string \<rightharpoonup> int64) \<Rightarrow> string \<Rightarrow> int64 \<Rightarrow> (string \<rightharpoonup> int64)" where
  "mapAdd c k v = c(k \<mapsto> mapGet c k + v)"

definition NewTorMonitor :: "string \<Rightarrow> TorMonitor" where
  "NewTorMonitor addr =
     \<lparr>address = addr, conn = [], reader = [], streams = Map.empty, logger = [],
      stats = Map.empty, report = Map.empty, activeStreams = 0, totalStreams = 0,
      stdout = [], clock = 0\<rparr>"

section \<open>Start\<close>

text \<open>
  The collaborators of \<^verbatim>\<open>Start\<close> are parameters: \<^verbatim>\<open>connectToTor\<close> fails or gives the
  lines the connection will deliver and its address, \<^verbatim>\<open>findCookieFile\<close> fails or gives a
  path, \<^verbatim>\<open>os.ReadFile\<close> fails or gives the cookie; what the first two print while they
  search is not kept.  An error is a value: \<open>None\<close> is Go's \<^verbatim>\<open>nil\<close>.  \<^verbatim>\<open>Start\<close> ends by
  starting \<^verbatim>\<open>eventLoop\<close> and \<^verbatim>\<open>periodicStats\<close> as goroutines; their steps are modelled below.
\<close>

record Collaborators =
  connectToTor :: "string + string list \<times> string"
  findCookieFile :: "string + string"
  ReadFile :: "string \<Rightarrow> string + string"

datatype start_error =
    ConnectFailed string          \<comment> \<open>\<^verbatim>\<open>"failed to connect to Tor control port: %v"\<close>\<close>
  | AuthenticationError string    \<comment> \<open>\<^verbatim>\<open>"authentication error: %v"\<close>\<close>
  | CookieReadFailed string       \<comment> \<open>\<^verbatim>\<open>"failed to read cookie file: %v"\<close>\<close>
  | ResponseReadFailed string     \<comment> \<open>\<^verbatim>\<open>"failed to read authentication response: %v"\<close>\<close>
  | AuthenticationFailed string   \<comment> \<open>\<^verbatim>\<open>"authentication failed: %s"\<close>\<close>

text \<open>\<^verbatim>\<open>m.reader.ReadString('\n')\<close>: the next line, or an error when the connection has ended.\<close>

definition ReadString :: "TorMonitor \<Rightarrow> (string + string) \<times> TorMonitor" where
  "ReadString m =
     (case reader m of
        [] \<Rightarrow> (Inl ''EOF'', m)
      | l # ls \<Rightarrow> (Inr l, m\<lparr>reader := ls\<rparr>))"

definition Start :: "Collaborators \<Rightarrow> TorMonitor \<Rightarrow> start_error option \<times> TorMonitor" where
  "Start env m =
     (case connectToTor env of
        Inl e \<Rightarrow> (Some (ConnectFailed e), m\<lparr>address := []\<rparr>)
      | Inr (lines, addr) \<Rightarrow>
          (let m1 = m\<lparr>address := addr, reader := lines\<rparr>
           in (case findCookieFile env of
                 Inl e \<Rightarrow> (Some (AuthenticationError e), m1)
               | Inr path \<Rightarrow>
                   (case ReadFile env path of
                      Inl e \<Rightarrow> (Some (CookieReadFailed e), m1)
                    | Inr data \<Rightarrow>
                        (let authCmd = ''AUTHENTICATE '' @ EncodeToString data @ [CHR 0x0D, CHR 0x0A];
                             m2 = m1\<lparr>conn := conn m1 @ [authCmd]\<rparr>;
                             (response, m3) = ReadString m2
                         in (case response of
                               Inl e \<Rightarrow> (Some (ResponseReadFailed e), m3)
                             | Inr response \<Rightarrow>
                                 (if \<not> Contains response ''250 OK''
                                  then (Some (AuthenticationFailed (TrimSpace response)), m3)
                                  else
                                    (let m4 = m3\<lparr>stdout := stdout m3 @ [(ColorGreen, Authenticated (address m3))]\<rparr>;
                                         m5 = m4\<lparr>conn := conn m4 @ [''SETEVENTS STREAM STREAM_BW'' @ [CHR 0x0D, CHR 0x0A]]\<rparr>;
                                         m6 = snd (ReadString m5);
                                         m7 = m6\<lparr>stdout := stdout m6 @ [(ColorCyan, MonitorStarted), (ColorCyan, LoggingToFile)]\<rparr>
                                     in (None, m7)))))))))"

section \<open>The event handlers\<close>

subsection \<open>finalizeStream\<close>

definition finalizeStream :: "StreamInfo \<Rightarrow> string \<Rightarrow> TorMonitor \<Rightarrow> TorMonitor" where
  "finalizeStream s reason m =
     (let duration = clock m - StartTime s;
          displayReason = (if reason = ''DONE'' then ''END'' else reason);
          summary = StreamFinished (ID s) (BytesSent s) (BytesReceived s) duration (Target s) displayReason;
          accMsg = TotalNow (mapGet (stats m) ''total_sent'') (mapGet (stats m) ''total_received'')
                     (totalStreams m) (activeStreams m)
      in m\<lparr>stdout := stdout m @ [(ColorYellow, summary), (ColorCyan, accMsg)],
           logger := logger m @ [summary, accMsg]\<rparr>)"

subsection \<open>handleStreamEvent\<close>

text \<open>The loop \<^verbatim>\<open>for i := 4; i < len(parts); i++\<close>, run on \<open>drop 4 parts\<close>.\<close>

fun scanTarget :: "string list \<Rightarrow> StreamInfo \<Rightarrow> StreamInfo" where
  "scanTarget [] s = s"
| "scanTarget (p # ps) s =
     scanTarget ps (if \<not> Contains p ''='' \<and> p \<noteq> ''-'' then s\<lparr>Target := p\<rparr> else s)"

text \<open>The loop \<^verbatim>\<open>for _, p := range parts\<close> that looks for the reason.\<close>

fun scanReason :: "string list \<Rightarrow> string \<Rightarrow> string" where
  "scanReason [] reason = reason"
| "scanReason (p # ps) reason =
     scanReason ps (if HasPrefix p ''REASON='' then TrimPrefix p ''REASON='' else reason)"

definition statusColor :: "string \<Rightarrow> color" where
  "statusColor status =
     (if status = ''SUCCEEDED'' then ColorGreen
      else if status = ''FAILED'' then ColorRed
      else if status = ''NEW'' then ColorCyan
      else if status = ''SENTCONNECT'' then ColorBlue
      else ColorGray)"

text \<open>
  \<^verbatim>\<open>if _, exists := m.streams[id]; !exists { ... }; s := m.streams[id]\<close>: the record of
  \<open>sid\<close>, made and counted when there is none.
\<close>

definition lookupOrCreate :: "string \<Rightarrow> TorMonitor \<Rightarrow> StreamInfo \<times> TorMonitor" where
  "lookupOrCreate sid m =
     (case streams m sid of
        Some s \<Rightarrow> (s, m)
      | None \<Rightarrow>
          let s = \<lparr>ID = sid, Target = [], BytesSent = 0, BytesReceived = 0,
                   StartTime = clock m, EndTime = 0, Closed = False\<rparr>
          in (s, m\<lparr>streams := (streams m)(sid \<mapsto> s),
                   stats := mapAdd (stats m) ''streams_total'' 1,
                   report := mapAdd (report m) ''streams_total'' 1,
                   activeStreams := activeStreams m + 1,
                   totalStreams := totalStreams m + 1\<rparr>))"

text \<open>
  \<open>s\<close> is a pointer into the map in the source; here every change of the record is
  written back to the map under \<open>sid\<close>.
\<close>

definition handleStreamEvent :: "string \<Rightarrow> TorMonitor \<Rightarrow> TorMonitor" where
  "handleStreamEvent line m =
     (let parts = Fields line
      in if length parts < 4 then m
         else
           let sid = parts ! 2;
               status = parts ! 3;
               (s0, m1) = lookupOrCreate sid m;
               s = scanTarget (drop 4 parts) s0;
               m2 = m1\<lparr>streams := (streams m1)(sid \<mapsto> s),
                       stdout := stdout m1 @ [(statusColor status, StreamStatus sid status (Target s))],
                       logger := logger m1 @ [StreamStatus sid status (Target s)]\<rparr>
           in if status = ''CLOSED'' \<or> status = ''FAILED'' then
                if \<not> Closed s then
                  let s' = s\<lparr>Closed := True, EndTime := clock m2\<rparr>;
                      m3 = m2\<lparr>streams := (streams m2)(sid \<mapsto> s'),
                              activeStreams := activeStreams m2 - 1\<rparr>;
                      reason = scanReason parts ''NONE'';
                      m4 = finalizeStream s' reason m3
                  in m4\<lparr>streams := (streams m4)(sid := None)\<rparr>
                else m2
              else m2)"

subsection \<open>handleStreamBWEvent\<close>

definition handleStreamBWEvent :: "string \<Rightarrow> TorMonitor \<Rightarrow> TorMonitor" where
  "handleStreamBWEvent line m =
     (let parts = Fields line
      in if length parts < 5 then m
         else
           let sid = parts ! 2;
               sent = fst (ParseInt (parts ! 3));
               rcvd = fst (ParseInt (parts ! 4))
           in case streams m sid of
                None \<Rightarrow> m
              | Some s \<Rightarrow>
                  m\<lparr>streams := (streams m)(sid \<mapsto>
                       s\<lparr>BytesSent := BytesSent s + sent, BytesReceived := BytesReceived s + rcvd\<rparr>),
                    stats := mapAdd (mapAdd (stats m) ''total_sent'' sent) ''total_received'' rcvd,
                    report := mapAdd (mapAdd (report m) ''total_sent'' sent) ''total_received'' rcvd\<rparr>)"

subsection \<open>periodicStats: one tick\<close>

definition periodicStatsTick :: "TorMonitor \<Rightarrow> TorMonitor" where
  "periodicStatsTick m =
     (let line = TenMinReport (mapGet (report m) ''total_sent'') (mapGet (report m) ''total_received'')
                   (mapGet (report m) ''streams_total'') (activeStreams m)
      in m\<lparr>stdout := stdout m @ [(ColorGreen, line)],
           logger := logger m @ [line],
           report := (report m)(''total_sent'' \<mapsto> 0, ''total_received'' \<mapsto> 0, ''streams_total'' \<mapsto> 0)\<rparr>)"

subsection \<open>eventLoop: one iteration\<close>

text \<open>Where the body of the loop sends a trimmed line.\<close>

datatype dispatch = ToStreamEvent | ToStreamBWEvent | Dropped

definition dispatchOf :: "string \<Rightarrow> dispatch" where
  "dispatchOf line =
     (if HasPrefix line ''650 STREAM '' \<and> \<not> Contains line ''STREAM_BW'' then ToStreamEvent
      else if HasPrefix line ''650 STREAM_BW'' then ToStreamBWEvent
      else Dropped)"

definition eventLoopBody :: "string \<Rightarrow> TorMonitor \<Rightarrow> TorMonitor" where
  "eventLoopBody raw m =
     (let line = TrimSpace raw
      in case dispatchOf line of
           ToStreamEvent \<Rightarrow> handleStreamEvent line m
         | ToStreamBWEvent \<Rightarrow> handleStreamBWEvent line m
         | Dropped \<Rightarrow> m)"

text \<open>
  \<^verbatim>\<open>eventLoop\<close> reads until a read fails, prints the error and returns.
\<close>

function eventLoop :: "TorMonitor \<Rightarrow> TorMonitor" where
  "eventLoop m =
     (case ReadString m of
        (Inl err, m') \<Rightarrow> m'\<lparr>stdout := stdout m' @ [(ColorRed, ReadError err)]\<rparr>
      | (Inr line, m') \<Rightarrow> eventLoop (eventLoopBody line m'))"
  by pat_completeness auto

lemma reader_finalizeStream [simp]: "reader (finalizeStream s r m) = reader m"
  by (simp add: finalizeStream_def Let_def)

lemma reader_lookupOrCreate [simp]: "reader (snd (lookupOrCreate sid m)) = reader m"
  by (simp add: lookupOrCreate_def Let_def split: option.splits)

lemma reader_handleStreamEvent [simp]: "reader (handleStreamEvent line m) = reader m"
  by (simp add: handleStreamEvent_def Let_def split_beta)

lemma reader_handleStreamBWEvent [simp]: "reader (handleStreamBWEvent line m) = reader m"
  by (simp add: handleStreamBWEvent_def Let_def split: option.splits)

lemma reader_eventLoopBody [simp]: "reader (eventLoopBody raw m) = reader m"
  by (simp add: eventLoopBody_def Let_def split: dispatch.splits)

termination eventLoop
proof (relation "measure (\<lambda>m. length (reader m))")
  show "wf (measure (\<lambda>m. length (reader m)))" by simp
next
  fix m :: TorMonitor and x m' line
  assume "(x, m') = ReadString m" "x = Inr line"
  then show "(eventLoopBody line m', m) \<in> measure (\<lambda>m. length (reader m))"
    by (auto simp: ReadString_def split: list.splits)
qed

subsection \<open>Interleavings\<close>

text \<open>
  The event loop and the reporter run concurrently; each takes the mutex for the whole
  of a handler or a tick, so an execution is a sequence of atomic steps: a line handled,
  a reporter tick, or the clock moving on.
\<close>

datatype event = Line string | Tick | Now time

fun step :: "event \<Rightarrow> TorMonitor \<Rightarrow> TorMonitor" where
  "step (Line raw) m = eventLoopBody raw m"
| "step Tick m = periodicStatsTick m"
| "step (Now t) m = m\<lparr>clock := t\<rparr>"

definition run :: "event list \<Rightarrow> TorMonitor \<Rightarrow> TorMonitor" where
  "run evs m = fold step evs m"

section \<open>Notions used to state the properties\<close>

subsection \<open>The registry invariant\<close>

text \<open>
  The invariant of the handlers: a finite registry, \<open>activeStreams\<close> its size, and no
  record in it closed (a record is closed and deleted in the same handler).
\<close>

definition registryInv :: "TorMonitor \<Rightarrow> bool" where
  "registryInv m \<longleftrightarrow>
     finite (dom (streams m)) \<and>
     activeStreams m = of_nat (card (dom (streams m))) \<and>
     (\<forall>sid s. streams m sid = Some s \<longrightarrow> \<not> Closed s)"

subsection \<open>The target candidate of the specification\<close>

text \<open>
  The specification's \<open>targetCandidate\<close>: the last token, from token 5 onward, that
  contains no \<open>=\<close> and is not the placeholder \<open>-\<close>; \<open>None\<close> if there is none.
\<close>

definition isCandidate :: "string \<Rightarrow> bool" where
  "isCandidate p \<longleftrightarrow> \<not> Contains p ''='' \<and> p \<noteq> ''-''"

definition targetCandidate :: "string list \<Rightarrow> string option" where
  "targetCandidate parts =
     (case filter isCandidate (drop 4 parts) of [] \<Rightarrow> None | t # ts \<Rightarrow> Some (last (t # ts)))"

subsection \<open>The monitor after the first line of Scenario 1\<close>

text \<open>The state after the first line of Scenario 1, from the fresh monitor.\<close>

definition stream7 :: StreamInfo where
  "stream7 = \<lparr>ID = ''7'', Target = ''www.example.com:443'', BytesSent = 0, BytesReceived = 0,
               StartTime = 0, EndTime = 0, Closed = False\<rparr>"

definition opened7 :: TorMonitor where
  "opened7 =
     \<lparr>address = [], conn = [], reader = [],
      streams = [''7'' \<mapsto> stream7],
      logger = [StreamStatus ''7'' ''NEW'' ''www.example.com:443''],
      stats = [''streams_total'' \<mapsto> 1], report = [''streams_total'' \<mapsto> 1],
      activeStreams = 1, totalStreams = 1,
      stdout = [(ColorCyan, StreamStatus ''7'' ''NEW'' ''www.example.com:443'')], clock = 0\<rparr>"

subsection \<open>The monitor after stream 7 has been closed, once and twice\<close>

definition closed7 :: TorMonitor where
  "closed7 =
     \<lparr>address = [], conn = [], reader = [],
      streams = Map.empty,
      logger = [StreamStatus ''7'' ''NEW'' ''www.example.com:443'',
                StreamStatus ''7'' ''CLOSED'' ''www.example.com:443'',
                StreamFinished ''7'' 0 0 0 ''www.example.com:443'' ''END'',
                TotalNow 0 0 1 0],
      stats = [''streams_total'' \<mapsto> 1], report = [''streams_total'' \<mapsto> 1],
      activeStreams = 0, totalStreams = 1,
      stdout = [(ColorCyan, StreamStatus ''7'' ''NEW'' ''www.example.com:443''),
                (ColorGray, StreamStatus ''7'' ''CLOSED'' ''www.example.com:443''),
                (ColorYellow, StreamFinished ''7'' 0 0 0 ''www.example.com:443'' ''END''),
                (ColorCyan, TotalNow 0 0 1 0)],
      clock = 0\<rparr>"

definition closedTwice7 :: TorMonitor where
  "closedTwice7 =
     \<lparr>address = [], conn = [], reader = [],
      streams = Map.empty,
      logger = [StreamStatus ''7'' ''NEW'' ''www.example.com:443'',
                StreamStatus ''7'' ''CLOSED'' ''www.example.com:443'',
                StreamFinished ''7'' 0 0 0 ''www.example.com:443'' ''END'',
                TotalNow 0 0 1 0,
                StreamStatus ''7'' ''CLOSED'' [],
                StreamFinished ''7'' 0 0 0 [] ''END'',
                TotalNow 0 0 2 0],
      stats = [''streams_total'' \<mapsto> 2], report = [''streams_total'' \<mapsto> 2],
      activeStreams = 0, totalStreams = 2,
      stdout = [(ColorCyan, StreamStatus ''7'' ''NEW'' ''www.example.com:443''),
                (ColorGray, StreamStatus ''7'' ''CLOSED'' ''www.example.com:443''),
                (ColorYellow, StreamFinished ''7'' 0 0 0 ''www.example.com:443'' ''END''),
                (ColorCyan, TotalNow 0 0 1 0),
                (ColorGray, StreamStatus ''7'' ''CLOSED'' []),
                (ColorYellow, StreamFinished ''7'' 0 0 0 [] ''END''),
                (ColorCyan, TotalNow 0 0 2 0)],
      clock = 0\<rparr>"

subsection \<open>Decimal numerals\<close>

text \<open>
  A token is a numeral when it is an optional sign followed by one or more decimal
  digits; \<open>unsign\<close> takes the sign off.
\<close>

definition isDigit :: "char \<Rightarrow> bool" where
  "isDigit c \<longleftrightarrow> 48 \<le> (of_char c :: nat) \<and> (of_char c :: nat) \<le> 57"

definition unsign :: "string \<Rightarrow> string" where
  "unsign t = (case t of [] \<Rightarrow> [] | c # cs \<Rightarrow> if c = CHR ''+'' \<or> c = CHR ''-'' then cs else t)"

definition isNumeral :: "string \<Rightarrow> bool" where
  "isNumeral t \<longleftrightarrow> unsign t \<noteq> [] \<and> list_all isDigit (unsign t)"

text \<open>
  The amount a token stands for, in the words of the amended claim C8.  \<open>leadingValue\<close>
  is the decimal value of the digits the token starts with after its optional sign.
  The amount is 0 when nothing follows the sign, and 0 when a character that is no digit
  follows digits worth less than \<open>2 ^ 64\<close>; in every other case it is the value of the
  leading digits with the token's sign, brought into the \<^verbatim>\<open>int64\<close> range: \<open>- 2 ^ 63\<close> at
  least, \<open>2 ^ 63 - 1\<close> at most.
\<close>

fun decFrom :: "nat \<Rightarrow> string \<Rightarrow> nat" where
  "decFrom n [] = n"
| "decFrom n (c # cs) = decFrom (n * 10 + ((of_char c :: nat) - 48)) cs"

definition leadingValue :: "string \<Rightarrow> nat" where
  "leadingValue t = decFrom 0 (takeWhile isDigit (unsign t))"

definition amountOfToken :: "string \<Rightarrow> int" where
  "amountOfToken t =
     (if unsign t = [] \<or> (\<not> list_all isDigit (unsign t) \<and> leadingValue t < 2 ^ 64) then 0
      else if t \<noteq> [] \<and> hd t = CHR ''-'' then max (- (2 ^ 63)) (- int (leadingValue t))
      else min (2 ^ 63 - 1) (int (leadingValue t)))"

subsection \<open>A control port that accepts the cookie and refuses the subscription\<close>

definition refusingSubscription :: Collaborators where
  "refusingSubscription =
     \<lparr>connectToTor =
        Inr ([''250 OK'' @ [CHR 0x0D, CHR 0x0A], ''552 Unrecognized event'' @ [CHR 0x0D, CHR 0x0A]],
             ''127.0.0.1:9051''),
      findCookieFile = Inr ''/var/lib/tor/control_auth_cookie'',
      ReadFile = (\<lambda>path. Inr [CHR 0x01, CHR 0xAB])\<rparr>"

subsection \<open>The amounts a bandwidth line carries for an id\<close>

text \<open>
  What \<^verbatim>\<open>handleStreamBWEvent\<close> decodes from a line for the stream \<open>sid\<close>: the amounts of
  tokens 4 and 5 when the line has at least 5 tokens and names \<open>sid\<close>, otherwise nothing.
\<close>

definition decodedSent :: "string \<Rightarrow> string \<Rightarrow> int64" where
  "decodedSent sid line =
     (let parts = Fields line
      in if 5 \<le> length parts \<and> parts ! 2 = sid then fst (ParseInt (parts ! 3)) else 0)"

definition decodedReceived :: "string \<Rightarrow> string \<Rightarrow> int64" where
  "decodedReceived sid line =
     (let parts = Fields line
      in if 5 \<le> length parts \<and> parts ! 2 = sid then fst (ParseInt (parts ! 4)) else 0)"


section \<open>Properties\<close>

subsection \<open>The reporter tick\<close>

text \<open>
  Claim C5.  After a reporter tick the three windowed counters (\<^verbatim>\<open>report["total_sent"]\<close>,
  \<^verbatim>\<open>report["total_received"]\<close>, \<^verbatim>\<open>report["streams_total"]\<close>) read zero, and the tick leaves
  the lifetime counters (\<open>stats\<close>, \<open>totalStreams\<close>), \<open>activeStreams\<close> and the registry as
  they were.
\<close>

theorem periodicStatsTick_resets_window:
  "mapGet (report (periodicStatsTick m)) ''total_sent'' = 0 \<and>
   mapGet (report (periodicStatsTick m)) ''total_received'' = 0 \<and>
   mapGet (report (periodicStatsTick m)) ''streams_total'' = 0 \<and>
   stats (periodicStatsTick m) = stats m \<and>
   totalStreams (periodicStatsTick m) = totalStreams m \<and>
   activeStreams (periodicStatsTick m) = activeStreams m \<and>
   streams (periodicStatsTick m) = streams m"
  by (simp add: periodicStatsTick_def mapGet_def Let_def)

subsection \<open>Bandwidth samples for an unknown id\<close>

text \<open>
  Claim C9.  A bandwidth event (a line of at least 5 tokens given to
  \<^verbatim>\<open>handleStreamBWEvent\<close>) whose id, token 3, is not in the registry leaves the whole state
  as it was: no per-stream, lifetime or windowed counter changes, nothing is printed,
  and the handler has no failing branch.
\<close>

theorem handleStreamBWEvent_unknown_id:
  assumes "5 \<le> length (Fields line)"
    and "streams m (Fields line ! 2) = None"
  shows "handleStreamBWEvent line m = m"
  using assms by (simp add: handleStreamBWEvent_def Let_def)

theorem handleStreamBWEvent_unknown_id_witness:
  "5 \<le> length (Fields ''650 STREAM_BW 99 100 250'') \<and>
   streams (NewTorMonitor []) (Fields ''650 STREAM_BW 99 100 250'' ! 2) = None \<and>
   handleStreamBWEvent ''650 STREAM_BW 99 100 250'' (NewTorMonitor []) = NewTorMonitor []"
proof -
  have f: "Fields ''650 STREAM_BW 99 100 250'' = [''650'', ''STREAM_BW'', ''99'', ''100'', ''250'']"
    by (simp add: Fields_def spaceWidth_def spaceRunes_def)
  have h1: "5 \<le> length (Fields ''650 STREAM_BW 99 100 250'')"
    by (simp add: f)
  have h2: "streams (NewTorMonitor []) (Fields ''650 STREAM_BW 99 100 250'' ! 2) = None"
    by (simp add: NewTorMonitor_def)
  from handleStreamBWEvent_unknown_id [OF h1 h2] h1 h2 show ?thesis
    by blast
qed

subsection \<open>Evaluating the handlers on the lines of the scenarios\<close>

lemmas eval_strings =
  Fields_def spaceWidth_def spaceWidthEnd_def spaceRunes_def TrimSpace_def dispatchOf_def

lemma line_new:
  "TrimSpace ''650 STREAM 7 NEW 0 www.example.com:443'' = ''650 STREAM 7 NEW 0 www.example.com:443''"
  "dispatchOf ''650 STREAM 7 NEW 0 www.example.com:443'' = ToStreamEvent"
  "Fields ''650 STREAM 7 NEW 0 www.example.com:443'' =
     [''650'', ''STREAM'', ''7'', ''NEW'', ''0'', ''www.example.com:443'']"
  by (simp_all add: eval_strings)

lemma line_closed:
  "TrimSpace ''650 STREAM 7 CLOSED REASON=DONE'' = ''650 STREAM 7 CLOSED REASON=DONE''"
  "dispatchOf ''650 STREAM 7 CLOSED REASON=DONE'' = ToStreamEvent"
  "Fields ''650 STREAM 7 CLOSED REASON=DONE'' = [''650'', ''STREAM'', ''7'', ''CLOSED'', ''REASON=DONE'']"
  by (simp_all add: eval_strings)

lemma line_bw:
  "TrimSpace ''650 STREAM_BW 7 100 250'' = ''650 STREAM_BW 7 100 250''"
  "dispatchOf ''650 STREAM_BW 7 100 250'' = ToStreamBWEvent"
  "Fields ''650 STREAM_BW 7 100 250'' = [''650'', ''STREAM_BW'', ''7'', ''100'', ''250'']"
  by (simp_all add: eval_strings)

lemma word_numeral_le_1:
  "(numeral k :: 64 word) \<le> 1 \<longleftrightarrow> unat (numeral k :: 64 word) \<le> 1"
  by (simp add: word_le_nat_alt)

lemmas eval_ParseInt =
  ParseInt_def ParseUint_def digitValue_def maxUint64_def cutoff10_def lower_def word_numeral_le_1

lemma handle_new:
  "handleStreamEvent ''650 STREAM 7 NEW 0 www.example.com:443'' (NewTorMonitor []) = opened7"
  by (simp add: handleStreamEvent_def line_new lookupOrCreate_def NewTorMonitor_def Let_def
      mapAdd_def mapGet_def statusColor_def opened7_def stream7_def)

lemma run_new:
  "run [Line ''650 STREAM 7 NEW 0 www.example.com:443''] (NewTorMonitor []) = opened7"
  by (simp add: run_def eventLoopBody_def line_new handle_new)


subsection \<open>The active count and the registry\<close>

lemma Closed_scanTarget [simp]: "Closed (scanTarget ps s) = Closed s"
  by (induction ps arbitrary: s) auto

lemma streams_finalizeStream [simp]: "streams (finalizeStream s r m) = streams m"
  by (simp add: finalizeStream_def Let_def)

lemma activeStreams_finalizeStream [simp]:
  "activeStreams (finalizeStream s r m) = activeStreams m"
  by (simp add: finalizeStream_def Let_def)

lemma card_dom_remove:
  "finite (dom f) \<Longrightarrow> f k = Some v \<Longrightarrow> Suc (card (dom (f(k := None)))) = card (dom f)"
  by (metis card_Suc_Diff1 dom_fun_upd domI)

lemma registryInv_handleStreamEvent:
  assumes "registryInv m"
  shows "registryInv (handleStreamEvent line m)"
proof (cases "length (Fields line) < 4")
  case True
  with assms show ?thesis by (simp add: handleStreamEvent_def)
next
  case False
  let ?sid = "Fields line ! 2"
  from assms have fin: "finite (dom (streams m))"
    and act: "activeStreams m = of_nat (card (dom (streams m)))"
    and ncl: "\<And>sid s. streams m sid = Some s \<Longrightarrow> \<not> Closed s"
    by (auto simp: registryInv_def)
  show ?thesis
  proof (cases "streams m ?sid")
    case None
    then have "dom (streams m) - {?sid} = dom (streams m)" and "?sid \<notin> dom (streams m)"
      by (auto simp: domIff)
    with False None fin act ncl show ?thesis
      by (auto simp: handleStreamEvent_def lookupOrCreate_def registryInv_def Let_def)
  next
    case (Some s0)
    then have d: "insert ?sid (dom (streams m)) = dom (streams m)" by auto
    from card_dom_remove [OF fin Some]
    have c: "(of_nat (card (dom (streams m))) :: 64 word) - 1
               = of_nat (card (dom ((streams m)(?sid := None))))"
      by (metis add_diff_cancel_left' of_nat_Suc add.commute)
    from False Some fin act ncl [OF Some] ncl d c show ?thesis
      by (auto simp: handleStreamEvent_def lookupOrCreate_def registryInv_def Let_def)
  qed
qed

lemma registryInv_handleStreamBWEvent:
  assumes "registryInv m"
  shows "registryInv (handleStreamBWEvent line m)"
proof -
  have "insert k (dom f) = dom f" if "f k = Some v" for f :: "string \<rightharpoonup> StreamInfo" and k v
    using that by auto
  with assms show ?thesis
    by (auto simp: handleStreamBWEvent_def registryInv_def Let_def split: option.splits)
qed

lemma registryInv_periodicStatsTick: "registryInv m \<Longrightarrow> registryInv (periodicStatsTick m)"
  by (simp add: periodicStatsTick_def registryInv_def Let_def)

lemma registryInv_step:
  assumes "registryInv m"
  shows "registryInv (step e m)"
proof (cases e)
  case (Line raw)
  with assms show ?thesis
    by (simp add: eventLoopBody_def Let_def registryInv_handleStreamEvent
        registryInv_handleStreamBWEvent split: dispatch.splits)
next
  case Tick
  with assms show ?thesis by (simp add: registryInv_periodicStatsTick)
next
  case (Now t)
  with assms show ?thesis by (simp add: registryInv_def)
qed

lemma registryInv_run: "registryInv m \<Longrightarrow> registryInv (run evs m)"
  unfolding run_def by (induction evs arbitrary: m) (auto simp: registryInv_step)

lemma registryInv_New: "registryInv (NewTorMonitor addr)"
  by (simp add: registryInv_def NewTorMonitor_def)

lemma sint_of_nat_small: "n < 2 ^ 63 \<Longrightarrow> sint (of_nat n :: 64 word) = int n"
  by (simp add: signed_of_nat signed_take_bit_int_eq_self)

text \<open>
  Claim C3.  After any finite sequence of steps (lines handled, reporter ticks, clock
  readings) from the fresh monitor, \<open>activeStreams\<close> is the number of entries of the
  registry: as a 64-bit \<^verbatim>\<open>int\<close> it is that number, and read as a signed number it equals
  it as long as the registry has fewer than \<open>2 ^ 63\<close> entries.  Every prefix of a run is
  a run, so this holds at every point between two steps.
\<close>

theorem activeStreams_is_registry_size:
  "finite (dom (streams (run evs (NewTorMonitor addr)))) \<and>
   activeStreams (run evs (NewTorMonitor addr))
     = of_nat (card (dom (streams (run evs (NewTorMonitor addr))))) \<and>
   (card (dom (streams (run evs (NewTorMonitor addr)))) < 2 ^ 63 \<longrightarrow>
      sint (activeStreams (run evs (NewTorMonitor addr)))
        = int (card (dom (streams (run evs (NewTorMonitor addr))))))"
  using registryInv_run [OF registryInv_New, of evs addr]
  by (simp add: registryInv_def sint_of_nat_small)

theorem activeStreams_is_registry_size_witness:
  "card (dom (streams (run [Line ''650 STREAM 7 NEW 0 www.example.com:443''] (NewTorMonitor []))))
     < 2 ^ 63 \<and>
   sint (activeStreams (run [Line ''650 STREAM 7 NEW 0 www.example.com:443''] (NewTorMonitor [])))
     = int (card (dom (streams (run [Line ''650 STREAM 7 NEW 0 www.example.com:443'']
         (NewTorMonitor [])))))"
proof -
  have h: "card (dom (streams (run [Line ''650 STREAM 7 NEW 0 www.example.com:443'']
      (NewTorMonitor [])))) < 2 ^ 63"
    by (simp add: run_new opened7_def)
  from activeStreams_is_registry_size [of "[Line ''650 STREAM 7 NEW 0 www.example.com:443'']" "[]"] h
  show ?thesis by blast
qed


subsection \<open>The target of a status line\<close>

lemma scanTarget_Cons:
  "scanTarget (p # ps) s = scanTarget ps (if isCandidate p then s\<lparr>Target := p\<rparr> else s)"
  by (simp add: isCandidate_def)

lemma scanTarget_filter:
  "scanTarget ps s =
     (case filter isCandidate ps of [] \<Rightarrow> s | t # ts \<Rightarrow> s\<lparr>Target := last (t # ts)\<rparr>)"
proof (induction ps arbitrary: s)
  case Nil
  show ?case by simp
next
  case (Cons p ps)
  show ?case
    by (cases "filter isCandidate ps") (simp_all add: Cons.IH scanTarget_Cons del: scanTarget.simps)
qed

lemma scanTarget_targetCandidate:
  "scanTarget (drop 4 parts) s =
     s\<lparr>Target := (case targetCandidate parts of None \<Rightarrow> Target s | Some t \<Rightarrow> t)\<rparr>"
  by (simp add: scanTarget_filter targetCandidate_def split: list.splits)

text \<open>
  Claim C7.  For a status line of at least 4 tokens, with \<open>old\<close> the target the registry
  holds for the id before the line (empty for an id it does not hold) and \<open>tgt\<close> the last
  candidate token of the line, or \<open>old\<close> when the line has none: the status line printed
  and logged carries \<open>tgt\<close>; for a status other than \<^verbatim>\<open>CLOSED\<close> and \<^verbatim>\<open>FAILED\<close> the record of
  the id after the line is the one before it (a fresh one for a new id) with target
  \<open>tgt\<close>; and a new id with such a status raises \<open>activeStreams\<close> by one.
\<close>

theorem target_is_last_candidate:
  assumes "4 \<le> length (Fields line)"
  shows
    "let parts = Fields line; sid = parts ! 2; status = parts ! 3;
         before = (case streams m sid of
                     None \<Rightarrow> \<lparr>ID = sid, Target = [], BytesSent = 0, BytesReceived = 0,
                               StartTime = clock m, EndTime = 0, Closed = False\<rparr>
                   | Some s \<Rightarrow> s);
         tgt = (case targetCandidate parts of None \<Rightarrow> Target before | Some t \<Rightarrow> t);
         m' = handleStreamEvent line m
     in take (Suc (length (logger m))) (logger m') = logger m @ [StreamStatus sid status tgt] \<and>
        take (Suc (length (stdout m))) (stdout m')
          = stdout m @ [(statusColor status, StreamStatus sid status tgt)] \<and>
        (status \<noteq> ''CLOSED'' \<and> status \<noteq> ''FAILED'' \<longrightarrow>
           streams m' = (streams m)(sid \<mapsto> before\<lparr>Target := tgt\<rparr>) \<and>
           (streams m sid = None \<longrightarrow> activeStreams m' = activeStreams m + 1))"
proof (cases "streams m (Fields line ! 2)")
  case None
  with assms show ?thesis
    by (simp add: handleStreamEvent_def lookupOrCreate_def Let_def scanTarget_targetCandidate
        finalizeStream_def split: option.splits)
next
  case (Some s)
  with assms show ?thesis
    by (simp add: handleStreamEvent_def lookupOrCreate_def Let_def scanTarget_targetCandidate
        finalizeStream_def split: option.splits)
qed

theorem target_is_last_candidate_witness:
  "4 \<le> length (Fields ''650 STREAM 7 NEW 0 www.example.com:443'') \<and>
   targetCandidate (Fields ''650 STREAM 7 NEW 0 www.example.com:443'') = Some ''www.example.com:443'' \<and>
   streams (NewTorMonitor []) ''7'' = None \<and>
   streams (handleStreamEvent ''650 STREAM 7 NEW 0 www.example.com:443'' (NewTorMonitor []))
     = [''7'' \<mapsto> \<lparr>ID = ''7'', Target = ''www.example.com:443'', BytesSent = 0, BytesReceived = 0,
                  StartTime = 0, EndTime = 0, Closed = False\<rparr>] \<and>
   activeStreams (handleStreamEvent ''650 STREAM 7 NEW 0 www.example.com:443'' (NewTorMonitor []))
     = activeStreams (NewTorMonitor []) + 1"
proof -
  have h: "4 \<le> length (Fields ''650 STREAM 7 NEW 0 www.example.com:443'')"
    by (simp add: line_new)
  have c: "targetCandidate (Fields ''650 STREAM 7 NEW 0 www.example.com:443'')
             = Some ''www.example.com:443''"
    by (simp add: line_new targetCandidate_def isCandidate_def)
  have n: "streams (NewTorMonitor []) ''7'' = None" "clock (NewTorMonitor []) = 0"
    "streams (NewTorMonitor []) = Map.empty"
    by (simp_all add: NewTorMonitor_def)
  from target_is_last_candidate [OF h, of "NewTorMonitor []"] h c n show ?thesis
    by (simp add: Let_def line_new)
qed

subsection \<open>A terminal status for an id the registry does not hold\<close>

text \<open>
  Claim C10.  A status line of at least 4 tokens with status \<^verbatim>\<open>CLOSED\<close> or \<^verbatim>\<open>FAILED\<close> for
  an id absent from the registry: \<^verbatim>\<open>lookupOrCreate\<close> makes a fresh record, puts it in the
  registry and adds one to the lifetime and windowed opened counters, to \<open>totalStreams\<close>
  and to \<open>activeStreams\<close>; the same handler then finalizes it, logging the status line,
  one \<open>StreamFinished\<close> summary (0 bytes, no time elapsed) and the running totals, and
  deletes it.  After the event the registry and \<open>activeStreams\<close> are as before it, and
  \<open>totalStreams\<close> and both opened counters are one higher.
\<close>

theorem terminal_status_for_absent_id:
  assumes "4 \<le> length (Fields line)"
    and "Fields line ! 3 = ''CLOSED'' \<or> Fields line ! 3 = ''FAILED''"
    and "streams m (Fields line ! 2) = None"
  shows
    "let parts = Fields line; sid = parts ! 2; status = parts ! 3;
         fresh = fst (lookupOrCreate sid m); m1 = snd (lookupOrCreate sid m);
         tgt = (case targetCandidate parts of None \<Rightarrow> [] | Some t \<Rightarrow> t);
         reason = scanReason parts ''NONE'';
         m' = handleStreamEvent line m
     in fresh = \<lparr>ID = sid, Target = [], BytesSent = 0, BytesReceived = 0,
                 StartTime = clock m, EndTime = 0, Closed = False\<rparr> \<and>
        streams m1 = (streams m)(sid \<mapsto> fresh) \<and>
        activeStreams m1 = activeStreams m + 1 \<and>
        totalStreams m1 = totalStreams m + 1 \<and>
        mapGet (stats m1) ''streams_total'' = mapGet (stats m) ''streams_total'' + 1 \<and>
        mapGet (report m1) ''streams_total'' = mapGet (report m) ''streams_total'' + 1 \<and>
        streams m' = streams m \<and>
        activeStreams m' = activeStreams m \<and>
        totalStreams m' = totalStreams m + 1 \<and>
        mapGet (stats m') ''streams_total'' = mapGet (stats m) ''streams_total'' + 1 \<and>
        mapGet (report m') ''streams_total'' = mapGet (report m) ''streams_total'' + 1 \<and>
        logger m' = logger m @
          [StreamStatus sid status tgt,
           StreamFinished sid 0 0 0 tgt (if reason = ''DONE'' then ''END'' else reason),
           TotalNow (mapGet (stats m) ''total_sent'') (mapGet (stats m) ''total_received'')
             (totalStreams m + 1) (activeStreams m)]"
proof -
  have u: "f(k := None) = f" if "f k = None" for f :: "string \<rightharpoonup> StreamInfo" and k
    using that by auto
  from assms show ?thesis
    by (simp add: handleStreamEvent_def lookupOrCreate_def Let_def scanTarget_targetCandidate
        finalizeStream_def mapAdd_def mapGet_def u split: option.splits)
qed

theorem terminal_status_for_absent_id_witness:
  "4 \<le> length (Fields ''650 STREAM 7 CLOSED REASON=DONE'') \<and>
   Fields ''650 STREAM 7 CLOSED REASON=DONE'' ! 3 = ''CLOSED'' \<and>
   streams (NewTorMonitor []) (Fields ''650 STREAM 7 CLOSED REASON=DONE'' ! 2) = None \<and>
   streams (handleStreamEvent ''650 STREAM 7 CLOSED REASON=DONE'' (NewTorMonitor [])) = Map.empty \<and>
   activeStreams (handleStreamEvent ''650 STREAM 7 CLOSED REASON=DONE'' (NewTorMonitor [])) = 0 \<and>
   totalStreams (handleStreamEvent ''650 STREAM 7 CLOSED REASON=DONE'' (NewTorMonitor [])) = 1 \<and>
   logger (handleStreamEvent ''650 STREAM 7 CLOSED REASON=DONE'' (NewTorMonitor [])) =
     [StreamStatus ''7'' ''CLOSED'' [], StreamFinished ''7'' 0 0 0 [] ''END'', TotalNow 0 0 1 0]"
proof -
  have h1: "4 \<le> length (Fields ''650 STREAM 7 CLOSED REASON=DONE'')"
    by (simp add: line_closed)
  have h2: "Fields ''650 STREAM 7 CLOSED REASON=DONE'' ! 3 = ''CLOSED''
              \<or> Fields ''650 STREAM 7 CLOSED REASON=DONE'' ! 3 = ''FAILED''"
    by (simp add: line_closed)
  have h3: "streams (NewTorMonitor []) (Fields ''650 STREAM 7 CLOSED REASON=DONE'' ! 2) = None"
    by (simp add: NewTorMonitor_def)
  have c: "targetCandidate (Fields ''650 STREAM 7 CLOSED REASON=DONE'') = None"
    "scanReason (Fields ''650 STREAM 7 CLOSED REASON=DONE'') ''NONE'' = ''DONE''"
    by (simp_all add: line_closed targetCandidate_def isCandidate_def TrimPrefix_def)
  have n: "streams (NewTorMonitor []) = Map.empty" "activeStreams (NewTorMonitor []) = 0"
    "totalStreams (NewTorMonitor []) = 0" "logger (NewTorMonitor []) = []"
    "stats (NewTorMonitor []) = Map.empty"
    by (simp_all add: NewTorMonitor_def)
  from terminal_status_for_absent_id [OF h1 h2 h3] h1 h3 c n show ?thesis
    by (simp add: Let_def line_closed mapGet_def)
qed


subsection \<open>Dispatch of a trimmed line\<close>

lemma HasPrefix_Cons:
  "HasPrefix s (p # ps) \<longleftrightarrow> (\<exists>cs. s = p # cs \<and> HasPrefix cs ps)"
  by (cases s) auto

lemma HasPrefix_append [simp]: "HasPrefix (p @ s) p"
  by (induction p) auto

lemma bw_prefix_excludes_status_prefix:
  "HasPrefix line ''650 STREAM_BW'' \<Longrightarrow> \<not> HasPrefix line ''650 STREAM ''"
  by (auto simp: HasPrefix_Cons)

lemma bw_prefix_contains_bw: "HasPrefix line ''650 STREAM_BW'' \<Longrightarrow> Contains line ''STREAM_BW''"
  by (auto simp: HasPrefix_Cons)

text \<open>
  Claim C6, as amended.  The loop hands a trimmed line to \<^verbatim>\<open>handleStreamEvent\<close> exactly
  when it starts with \<^verbatim>\<open>"650 STREAM "\<close> and does not contain \<^verbatim>\<open>"STREAM_BW"\<close> anywhere, to
  \<^verbatim>\<open>handleStreamBWEvent\<close> exactly when it starts with \<^verbatim>\<open>"650 STREAM_BW"\<close>, and otherwise
  leaves the state as it is.  So a line \<^verbatim>\<open>"650 STREAM <id> <STATUS> ..."\<close> is handled as a
  status event whatever follows the prefix, as long as \<^verbatim>\<open>"STREAM_BW"\<close> does not occur in it.
\<close>

theorem dispatch_of_trimmed_line:
  "(dispatchOf line = ToStreamEvent \<longleftrightarrow>
      HasPrefix line ''650 STREAM '' \<and> \<not> Contains line ''STREAM_BW'') \<and>
   (dispatchOf line = ToStreamBWEvent \<longleftrightarrow> HasPrefix line ''650 STREAM_BW'') \<and>
   (dispatchOf line = Dropped \<longleftrightarrow>
      \<not> HasPrefix line ''650 STREAM_BW'' \<and>
      (HasPrefix line ''650 STREAM '' \<longrightarrow> Contains line ''STREAM_BW'')) \<and>
   (\<not> Contains (''650 STREAM '' @ rest) ''STREAM_BW'' \<longrightarrow>
      dispatchOf (''650 STREAM '' @ rest) = ToStreamEvent) \<and>
   eventLoopBody raw m =
     (if HasPrefix (TrimSpace raw) ''650 STREAM '' \<and> \<not> Contains (TrimSpace raw) ''STREAM_BW''
      then handleStreamEvent (TrimSpace raw) m
      else if HasPrefix (TrimSpace raw) ''650 STREAM_BW''
      then handleStreamBWEvent (TrimSpace raw) m
      else m)"
proof -
  have a: "HasPrefix (''650 STREAM '' @ rest) ''650 STREAM ''"
    by (rule HasPrefix_append)
  show ?thesis
    using bw_prefix_excludes_status_prefix [of line] a
    by (auto simp: dispatchOf_def eventLoopBody_def Let_def simp del: HasPrefix.simps Contains.simps)
qed

theorem dispatch_of_trimmed_line_witness:
  "\<not> Contains (''650 STREAM '' @ ''7 NEW 0 www.example.com:443'') ''STREAM_BW'' \<and>
   dispatchOf (''650 STREAM '' @ ''7 NEW 0 www.example.com:443'') = ToStreamEvent \<and>
   HasPrefix ''650 STREAM 7 NEW 0 STREAM_BW.example.com:80'' ''650 STREAM '' \<and>
   Contains ''650 STREAM 7 NEW 0 STREAM_BW.example.com:80'' ''STREAM_BW'' \<and>
   dispatchOf ''650 STREAM 7 NEW 0 STREAM_BW.example.com:80'' = Dropped"
proof -
  have h: "\<not> Contains (''650 STREAM '' @ ''7 NEW 0 www.example.com:443'') ''STREAM_BW''"
    by simp
  have p: "HasPrefix ''650 STREAM 7 NEW 0 STREAM_BW.example.com:80'' ''650 STREAM ''"
    "Contains ''650 STREAM 7 NEW 0 STREAM_BW.example.com:80'' ''STREAM_BW''"
    "\<not> HasPrefix ''650 STREAM 7 NEW 0 STREAM_BW.example.com:80'' ''650 STREAM_BW''"
    by simp_all
  from dispatch_of_trimmed_line [of "''650 STREAM 7 NEW 0 STREAM_BW.example.com:80''"
      "''7 NEW 0 www.example.com:443''"] h p
  show ?thesis by blast
qed

text \<open>
  Claim C6 as stated fails: this line has the form \<^verbatim>\<open>"650 STREAM <id> <STATUS> <field> <field>"\<close>
  and is no bandwidth line, yet the loop drops it, because its last field contains
  \<^verbatim>\<open>"STREAM_BW"\<close>; \<^verbatim>\<open>handleStreamEvent\<close>, had it been given the line, would have opened
  stream 7.
\<close>

theorem status_line_with_bw_in_field_is_dropped:
  "TrimSpace ''650 STREAM 7 NEW 0 STREAM_BW.example.com:80''
     = ''650 STREAM 7 NEW 0 STREAM_BW.example.com:80'' \<and>
   HasPrefix ''650 STREAM 7 NEW 0 STREAM_BW.example.com:80'' ''650 STREAM '' \<and>
   \<not> HasPrefix ''650 STREAM 7 NEW 0 STREAM_BW.example.com:80'' ''650 STREAM_BW'' \<and>
   Fields ''650 STREAM 7 NEW 0 STREAM_BW.example.com:80''
     = [''650'', ''STREAM'', ''7'', ''NEW'', ''0'', ''STREAM_BW.example.com:80''] \<and>
   dispatchOf ''650 STREAM 7 NEW 0 STREAM_BW.example.com:80'' = Dropped \<and>
   eventLoopBody ''650 STREAM 7 NEW 0 STREAM_BW.example.com:80'' (NewTorMonitor []) = NewTorMonitor [] \<and>
   activeStreams (handleStreamEvent ''650 STREAM 7 NEW 0 STREAM_BW.example.com:80'' (NewTorMonitor [])) = 1"
proof -
  have t: "TrimSpace ''650 STREAM 7 NEW 0 STREAM_BW.example.com:80''
             = ''650 STREAM 7 NEW 0 STREAM_BW.example.com:80''"
    by (simp add: eval_strings)
  have f: "Fields ''650 STREAM 7 NEW 0 STREAM_BW.example.com:80''
             = [''650'', ''STREAM'', ''7'', ''NEW'', ''0'', ''STREAM_BW.example.com:80'']"
    by (simp add: eval_strings)
  have d: "dispatchOf ''650 STREAM 7 NEW 0 STREAM_BW.example.com:80'' = Dropped"
    by (simp add: dispatchOf_def)
  have e: "eventLoopBody ''650 STREAM 7 NEW 0 STREAM_BW.example.com:80'' (NewTorMonitor [])
             = NewTorMonitor []"
    by (simp add: eventLoopBody_def t d)
  have a: "activeStreams (handleStreamEvent ''650 STREAM 7 NEW 0 STREAM_BW.example.com:80''
             (NewTorMonitor [])) = 1"
    by (simp add: handleStreamEvent_def f lookupOrCreate_def NewTorMonitor_def Let_def)
  from t f d e a show ?thesis by simp
qed


subsection \<open>What ParseInt makes of a token\<close>

lemma digitValue_digit: "isDigit c \<Longrightarrow> digitValue c = Some ((of_char c :: nat) - 48)"
  by (auto simp: digitValue_def isDigit_def Let_def)

lemma digit_less_10: "isDigit c \<Longrightarrow> (of_char c :: nat) - 48 < 10"
  by (auto simp: isDigit_def)

lemma digitValue_other:
  "\<not> isDigit c \<Longrightarrow> digitValue c = None \<or> (\<exists>d. digitValue c = Some d \<and> 10 \<le> d)"
  by (auto simp: digitValue_def isDigit_def Let_def)

lemma decFrom_ge: "n \<le> decFrom n cs"
proof (induction cs arbitrary: n)
  case Nil
  show ?case by simp
next
  case (Cons c cs)
  have "n \<le> n * 10 + ((of_char c :: nat) - 48)" by simp
  also have "\<dots> \<le> decFrom (n * 10 + ((of_char c :: nat) - 48)) cs" by (rule Cons.IH)
  finally show ?case by simp
qed

lemma below_cutoff10: "\<not> cutoff10 \<le> n \<longleftrightarrow> unat n < 1844674407370955162"
  by (simp add: cutoff10_def maxUint64_def word_le_nat_alt not_le)

lemma unat_times_10:
  fixes n :: "64 word"
  assumes "unat n < 1844674407370955162"
  shows "unat (n * 10) = unat n * 10"
proof -
  from assms have "unat n * unat (10 :: 64 word) < 2 ^ LENGTH(64)" by simp
  then show ?thesis
    using unat_mult_lem [of n "10 :: 64 word"] by simp
qed

lemma unat_digit: "d < 10 \<Longrightarrow> unat (of_nat d :: 64 word) = d"
  by (simp add: unat_of_nat)

lemma parseUintLoop_value:
  "parseUintLoop cs n =
     (if 2 ^ 64 \<le> decFrom (unat n) (takeWhile isDigit cs) then (maxUint64, Some ErrRange)
      else if \<not> list_all isDigit cs then (0, Some ErrSyntax)
      else (of_nat (decFrom (unat n) cs), None))"
proof (induction cs arbitrary: n)
  case Nil
  have "unat n < 2 ^ LENGTH(64)" by (rule unsigned_less)
  then show ?case by simp
next
  case (Cons c cs)
  have "unat n < 2 ^ LENGTH(64)" by (rule unsigned_less)
  then have n64: "unat n < 2 ^ 64" by simp
  show ?case
  proof (cases "isDigit c")
    case False
    with digitValue_other [OF False] n64 show ?thesis by auto
  next
    case True
    let ?d = "(of_char c :: nat) - 48"
    note dv = digitValue_digit [OF True] and d10 = digit_less_10 [OF True]
    show ?thesis
    proof (cases "unat n * 10 + ?d < 2 ^ 64")
      case small: True
      then have b: "unat n < 1844674407370955162" by simp
      note m = unat_times_10 [OF b]
      from small m d10 have "unat (n * 10) + unat (of_nat ?d :: 64 word) < 2 ^ LENGTH(64)"
        by (simp add: unat_digit)
      then have s: "unat (n * 10 + of_nat ?d) = unat n * 10 + ?d"
        using unat_add_lem [of "n * 10" "of_nat ?d :: 64 word"] m d10 by (simp add: unat_digit)
      have c1: "\<not> cutoff10 \<le> n" using b by (simp add: below_cutoff10)
      have c2: "\<not> n * 10 + of_nat ?d < n * 10"
        by (simp add: word_less_nat_alt s m)
      have c3: "\<not> n * 10 + of_nat ?d > maxUint64"
        by (simp add: maxUint64_def word_less_nat_alt word_le_nat_alt [symmetric] not_less)
      from True dv d10 c1 c2 c3 show ?thesis
        by (simp add: Let_def Cons.IH s)
    next
      case big: False
      have "unat n * 10 + ?d \<le> decFrom (unat n * 10 + ?d) (takeWhile isDigit cs)"
        by (rule decFrom_ge)
      with big have v: "2 ^ 64 \<le> decFrom (unat n * 10 + ?d) (takeWhile isDigit cs)" by simp
      have "parseUintLoop (c # cs) n = (maxUint64, Some ErrRange)"
      proof (cases "cutoff10 \<le> n")
        case True
        with dv d10 show ?thesis by simp
      next
        case False
        then have b: "unat n < 1844674407370955162" by (simp add: below_cutoff10)
        note m = unat_times_10 [OF b]
        from big m d10 have "\<not> unat (n * 10) + unat (of_nat ?d :: 64 word) < 2 ^ LENGTH(64)"
          by (simp add: unat_digit)
        then have "\<not> n * 10 \<le> n * 10 + of_nat ?d"
          by (simp add: no_olen_add_nat)
        then have "n * 10 + of_nat ?d < n * 10" by simp
        with False dv d10 show ?thesis by (simp add: Let_def)
      qed
      with True v show ?thesis by simp
    qed
  qed
qed

lemma ParseUint_value:
  "ParseUint s =
     (if s = [] then (0, Some ErrSyntax)
      else if 2 ^ 64 \<le> decFrom 0 (takeWhile isDigit s) then (maxUint64, Some ErrRange)
      else if \<not> list_all isDigit s then (0, Some ErrSyntax)
      else (of_nat (decFrom 0 s), None))"
  by (simp add: ParseUint_def parseUintLoop_value)

lemma takeWhile_all: "list_all P xs \<Longrightarrow> takeWhile P xs = xs"
  by (induction xs) auto

lemma word_2p63_le_of_nat:
  "v < 2 ^ 64 \<Longrightarrow> (9223372036854775808 :: 64 word) \<le> of_nat v \<longleftrightarrow> 9223372036854775808 \<le> v"
  by (simp add: word_le_nat_alt unat_of_nat)

lemma word_2p63_less_of_nat:
  "v < 2 ^ 64 \<Longrightarrow> (9223372036854775808 :: 64 word) < of_nat v \<longleftrightarrow> 9223372036854775808 < v"
  by (simp add: word_less_nat_alt unat_of_nat)

lemma word_2p63_vs_max:
  "(9223372036854775808 :: 64 word) \<le> - 1" "(9223372036854775808 :: 64 word) < - 1"
proof -
  show "(9223372036854775808 :: 64 word) \<le> - 1" by simp
  have "(9223372036854775808 :: 64 word) \<noteq> - 1" by simp
  then show "(9223372036854775808 :: 64 word) < - 1"
    by (simp add: word_order.not_eq_extremum)
qed

text \<open>
  \<^verbatim>\<open>ParseInt\<close> computes \<open>amountOfToken\<close>: the value it returns, whatever error it reports
  with it, is the \<^verbatim>\<open>int64\<close> of that integer, and that integer is in the \<^verbatim>\<open>int64\<close> range.
\<close>

lemma amountOfToken_range: "- (2 ^ 63) \<le> amountOfToken t \<and> amountOfToken t < 2 ^ 63"
  by (simp add: amountOfToken_def min_def max_def)

lemma ParseInt_amountOfToken: "fst (ParseInt t) = of_int (amountOfToken t)"
proof (cases t)
  case Nil
  then show ?thesis by (simp add: ParseInt_def amountOfToken_def unsign_def)
next
  case (Cons c cs)
  have u: "(if hd t = CHR ''+'' \<or> hd t = CHR ''-'' then tl t else t) = unsign t"
    using Cons by (simp add: unsign_def)
  have pi: "ParseInt t =
     (let neg = (hd t = CHR ''-''); (un, err) = ParseUint (unsign t); cutoff = (2 ^ 63 :: uint64)
      in if err \<noteq> None \<and> err \<noteq> Some ErrRange then (0, err)
         else if \<not> neg \<and> un \<ge> cutoff then (cutoff - 1, Some ErrRange)
         else if neg \<and> un > cutoff then (- cutoff, Some ErrRange)
         else (if neg then - un else un, None))"
    using Cons unfolding ParseInt_def u by simp
  from Cons have tne: "t \<noteq> []" by simp
  let ?v = "leadingValue t"
  show ?thesis
  proof (cases "unsign t = []")
    case True
    then show ?thesis
      by (simp add: pi ParseUint_value amountOfToken_def Let_def)
  next
    case body: False
    show ?thesis
    proof (cases "2 ^ 64 \<le> ?v")
      case True
      then have "2 ^ 64 \<le> decFrom 0 (takeWhile isDigit (unsign t))"
        by (simp add: leadingValue_def)
      with body have pu: "ParseUint (unsign t) = (- 1, Some ErrRange)"
        by (simp add: ParseUint_value maxUint64_def)
      from True have a: "amountOfToken t
          = (if hd t = CHR ''-'' then - 9223372036854775808 else 9223372036854775807)"
        using body tne by (simp add: amountOfToken_def max_def min_def)
      show ?thesis
        by (simp add: pi pu a word_2p63_vs_max)
    next
      case v64: False
      then have v: "?v < 2 ^ 64" by simp
      show ?thesis
      proof (cases "list_all isDigit (unsign t)")
        case False
        with v have pu: "ParseUint (unsign t) = (0, Some ErrSyntax)"
          using body by (simp add: ParseUint_value leadingValue_def)
        from False v body have a: "amountOfToken t = 0"
          by (simp add: amountOfToken_def)
        show ?thesis by (simp add: pi pu a)
      next
        case True
        then have lv: "decFrom 0 (unsign t) = ?v" "takeWhile isDigit (unsign t) = unsign t"
          by (simp_all add: leadingValue_def takeWhile_all)
        from True v body have pu: "ParseUint (unsign t) = (of_nat ?v, None)"
          by (simp add: ParseUint_value lv)
        from True body tne have a: "amountOfToken t
            = (if hd t = CHR ''-'' then max (- (2 ^ 63)) (- int ?v) else min (2 ^ 63 - 1) (int ?v))"
          by (simp add: amountOfToken_def)
        note w = word_2p63_le_of_nat [OF v] word_2p63_less_of_nat [OF v]
        show ?thesis
        proof (cases "hd t = CHR ''-''")
          case neg: True
          show ?thesis
          proof (cases "9223372036854775808 < ?v")
            case True
            then have "max (- 9223372036854775808) (- int ?v) = - 9223372036854775808"
              by (intro max_absorb1) simp
            with neg True show ?thesis by (simp add: pi pu a w)
          next
            case False
            then have "max (- 9223372036854775808) (- int ?v) = - int ?v"
              by (intro max_absorb2) simp
            with neg False show ?thesis by (simp add: pi pu a w)
          qed
        next
          case pos: False
          show ?thesis
          proof (cases "9223372036854775808 \<le> ?v")
            case True
            then have "min 9223372036854775807 (int ?v) = 9223372036854775807"
              by (intro min_absorb1) simp
            with pos True show ?thesis by (simp add: pi pu a w)
          next
            case False
            then have "min 9223372036854775807 (int ?v) = int ?v"
              by (intro min_absorb2) simp
            with pos False show ?thesis by (simp add: pi pu a w)
          qed
        qed
      qed
    qed
  qed
qed

lemma sint_ParseInt: "sint (fst (ParseInt t)) = amountOfToken t"
  using amountOfToken_range [of t]
  by (simp add: ParseInt_amountOfToken signed_of_int signed_take_bit_int_eq_self)


lemma line_bw_abc:
  "Fields ''650 STREAM_BW 7 abc 250'' = [''650'', ''STREAM_BW'', ''7'', ''abc'', ''250'']"
  by (simp add: eval_strings)

lemma line_bw_big:
  "Fields ''650 STREAM_BW 7 99999999999999999999 250''
     = [''650'', ''STREAM_BW'', ''7'', ''99999999999999999999'', ''250'']"
  "Fields ''650 STREAM_BW 7 99999999999999999999x 250''
     = [''650'', ''STREAM_BW'', ''7'', ''99999999999999999999x'', ''250'']"
  by (simp_all add: eval_strings)

lemma line_bw_neg:
  "TrimSpace ''650 STREAM_BW 7 -5 0'' = ''650 STREAM_BW 7 -5 0''"
  "dispatchOf ''650 STREAM_BW 7 -5 0'' = ToStreamBWEvent"
  "Fields ''650 STREAM_BW 7 -5 0'' = [''650'', ''STREAM_BW'', ''7'', ''-5'', ''0'']"
  by (simp_all add: eval_strings)

lemma ParseInt_examples:
  "ParseInt ''abc'' = (0, Some ErrSyntax)"
  "ParseInt ''250'' = (250, None)"
  "ParseInt ''100'' = (100, None)"
  "ParseInt ''-5'' = (- 5, None)"
  "ParseInt ''0'' = (0, None)"
  "ParseInt ''99999999999999999999'' = (9223372036854775807, Some ErrRange)"
  "ParseInt ''99999999999999999999x'' = (9223372036854775807, Some ErrRange)"
  "ParseInt ''9223372036854775808'' = (9223372036854775807, Some ErrRange)"
  "ParseInt ''-9223372036854775809'' = (- 9223372036854775808, Some ErrRange)"
  "ParseInt ''-99999999999999999999x'' = (- 9223372036854775808, Some ErrRange)"
  "ParseInt ''00000000000000000000x'' = (0, Some ErrSyntax)"
  by (simp_all add: eval_ParseInt)

lemma mapGet_mapAdd_totals:
  "mapGet (mapAdd (mapAdd c ''total_sent'' a) ''total_received'' b) ''total_sent''
     = mapGet c ''total_sent'' + a"
  "mapGet (mapAdd (mapAdd c ''total_sent'' a) ''total_received'' b) ''total_received''
     = mapGet c ''total_received'' + b"
  by (simp_all add: mapAdd_def mapGet_def)

lemma amountOfToken_examples:
  "amountOfToken ''abc'' = 0"
  "amountOfToken ''250'' = 250"
  "amountOfToken ''-5'' = - 5"
  "amountOfToken ''00000000000000000000x'' = 0"
  "amountOfToken ''9223372036854775807'' = 9223372036854775807"
  "amountOfToken ''9223372036854775808'' = 9223372036854775807"
  "amountOfToken ''-9223372036854775808'' = - 9223372036854775808"
  "amountOfToken ''-9223372036854775809'' = - 9223372036854775808"
  "amountOfToken ''99999999999999999999x'' = 9223372036854775807"
  "amountOfToken ''-99999999999999999999x'' = - 9223372036854775808"
  by (simp_all add: amountOfToken_def leadingValue_def unsign_def isDigit_def)

text \<open>
  Claim C8, as amended.  A bandwidth line of at least 5 tokens for a registered id is
  never rejected: each of the two tokens is decoded on its own, and the \<^verbatim>\<open>int64\<close> of its
  amount \<open>amountOfToken\<close> is added to the record and to the lifetime and windowed totals.
  The amount is an integer of the \<^verbatim>\<open>int64\<close> range.  It is 0 for a token that is no numeral
  (no optionally signed run of decimal digits) whose leading digits are worth less than
  \<open>2 ^ 64\<close>, so such a token leaves its counter as it was.  For every other token it is
  the value of the leading digits with the token's sign, cut to the bound of that sign:
  \<open>2 ^ 63 - 1\<close> without a minus sign, \<open>- 2 ^ 63\<close> with one.
\<close>

theorem bandwidth_amounts_decoded_permissively:
  assumes "5 \<le> length (Fields line)"
    and "streams m (Fields line ! 2) = Some s"
  shows
    "let parts = Fields line; sid = parts ! 2;
         sent = amountOfToken (parts ! 3); rcvd = amountOfToken (parts ! 4);
         m' = handleStreamBWEvent line m
     in streams m' sid
          = Some (s\<lparr>BytesSent := BytesSent s + of_int sent,
                   BytesReceived := BytesReceived s + of_int rcvd\<rparr>) \<and>
        mapGet (stats m') ''total_sent'' = mapGet (stats m) ''total_sent'' + of_int sent \<and>
        mapGet (stats m') ''total_received'' = mapGet (stats m) ''total_received'' + of_int rcvd \<and>
        mapGet (report m') ''total_sent'' = mapGet (report m) ''total_sent'' + of_int sent \<and>
        mapGet (report m') ''total_received'' = mapGet (report m) ''total_received'' + of_int rcvd \<and>
        - (2 ^ 63) \<le> sent \<and> sent < 2 ^ 63 \<and> - (2 ^ 63) \<le> rcvd \<and> rcvd < 2 ^ 63 \<and>
        (\<not> isNumeral (parts ! 3) \<and> leadingValue (parts ! 3) < 2 ^ 64 \<longrightarrow>
           sent = 0 \<and> map_option BytesSent (streams m' sid) = Some (BytesSent s)) \<and>
        (\<not> isNumeral (parts ! 4) \<and> leadingValue (parts ! 4) < 2 ^ 64 \<longrightarrow>
           rcvd = 0 \<and> map_option BytesReceived (streams m' sid) = Some (BytesReceived s))"
proof -
  have z: "\<not> isNumeral t \<and> leadingValue t < 2 ^ 64 \<longrightarrow> amountOfToken t = 0" for t
    by (auto simp: amountOfToken_def isNumeral_def)
  from assms have
    "handleStreamBWEvent line m =
       m\<lparr>streams := (streams m)(Fields line ! 2 \<mapsto>
            s\<lparr>BytesSent := BytesSent s + of_int (amountOfToken (Fields line ! 3)),
              BytesReceived := BytesReceived s + of_int (amountOfToken (Fields line ! 4))\<rparr>),
         stats := mapAdd (mapAdd (stats m) ''total_sent'' (of_int (amountOfToken (Fields line ! 3))))
                    ''total_received'' (of_int (amountOfToken (Fields line ! 4))),
         report := mapAdd (mapAdd (report m) ''total_sent'' (of_int (amountOfToken (Fields line ! 3))))
                    ''total_received'' (of_int (amountOfToken (Fields line ! 4)))\<rparr>"
    by (simp add: handleStreamBWEvent_def Let_def ParseInt_amountOfToken)
  then show ?thesis
    using z [of "Fields line ! 3"] z [of "Fields line ! 4"]
      amountOfToken_range [of "Fields line ! 3"] amountOfToken_range [of "Fields line ! 4"]
    by (auto simp: Let_def mapGet_mapAdd_totals)
qed

theorem bandwidth_amounts_decoded_permissively_witness:
  "5 \<le> length (Fields ''650 STREAM_BW 7 abc 250'') \<and>
   streams opened7 (Fields ''650 STREAM_BW 7 abc 250'' ! 2) = Some stream7 \<and>
   \<not> isNumeral ''abc'' \<and> leadingValue ''abc'' < 2 ^ 64 \<and>
   amountOfToken ''abc'' = 0 \<and> amountOfToken ''250'' = 250 \<and>
   streams (handleStreamBWEvent ''650 STREAM_BW 7 abc 250'' opened7) ''7''
     = Some (stream7\<lparr>BytesSent := BytesSent stream7, BytesReceived := BytesReceived stream7 + 250\<rparr>) \<and>
   mapGet (stats (handleStreamBWEvent ''650 STREAM_BW 7 abc 250'' opened7)) ''total_received''
     = mapGet (stats opened7) ''total_received'' + 250"
proof -
  have h1: "5 \<le> length (Fields ''650 STREAM_BW 7 abc 250'')"
    by (simp add: line_bw_abc)
  have h2: "streams opened7 (Fields ''650 STREAM_BW 7 abc 250'' ! 2) = Some stream7"
    by (simp add: line_bw_abc opened7_def)
  have h3: "\<not> isNumeral ''abc''" "leadingValue ''abc'' < 2 ^ 64"
    by (simp_all add: isNumeral_def leadingValue_def unsign_def isDigit_def)
  from bandwidth_amounts_decoded_permissively [OF h1 h2] h1 h2 h3 show ?thesis
    by (simp add: Let_def line_bw_abc amountOfToken_examples)
qed

text \<open>
  Claim C8 as stated fails.  For the open stream 7, the sent token \<^verbatim>\<open>99999999999999999999\<close>
  (which \<^verbatim>\<open>ParseInt\<close> refuses with a range error) and the sent token
  \<^verbatim>\<open>99999999999999999999x\<close> (which is no numeral, and which \<^verbatim>\<open>ParseInt\<close> refuses at its
  twentieth digit, before it reaches the \<^verbatim>\<open>x\<close>) are not treated as 0: each adds
  \<open>2 ^ 63 - 1\<close> to \<open>BytesSent\<close>.
\<close>

theorem refused_amount_is_not_zero:
  "map_option BytesSent (streams opened7 ''7'') = Some 0 \<and>
   snd (ParseInt ''99999999999999999999'') = Some ErrRange \<and>
   map_option BytesSent
     (streams (handleStreamBWEvent ''650 STREAM_BW 7 99999999999999999999 250'' opened7) ''7'')
     = Some 9223372036854775807 \<and>
   \<not> isNumeral ''99999999999999999999x'' \<and>
   map_option BytesSent
     (streams (handleStreamBWEvent ''650 STREAM_BW 7 99999999999999999999x 250'' opened7) ''7'')
     = Some 9223372036854775807"
proof -
  have n: "\<not> isNumeral ''99999999999999999999x''"
    by (simp add: isNumeral_def unsign_def isDigit_def)
  then show ?thesis
    by (simp add: handleStreamBWEvent_def line_bw_big ParseInt_examples opened7_def stream7_def
        Let_def)
qed

subsection \<open>How a bandwidth event moves the byte counters\<close>

lemma sint_add_nonneg:
  fixes x a :: "64 word"
  assumes "0 \<le> sint a" and "sint x + sint a < 2 ^ 63"
  shows "sint (x + a) = sint x + sint a"
proof -
  have "- (2 ^ 63) \<le> sint x"
    using sint_ge [of x] by simp
  with assms have "- (2 ^ 63) \<le> sint x + sint a" by linarith
  with assms(2) show ?thesis
    by (simp add: sint_word_ariths signed_take_bit_int_eq_self)
qed

lemma handleStreamBWEvent_record:
  assumes "streams m sid = Some s"
  shows "streams (handleStreamBWEvent line m) sid =
           Some (s\<lparr>BytesSent := BytesSent s + decodedSent sid line,
                   BytesReceived := BytesReceived s + decodedReceived sid line\<rparr>)"
  using assms
  by (auto simp: handleStreamBWEvent_def decodedSent_def decodedReceived_def Let_def
      split: option.splits)

lemma sum_list_nonneg_int: "\<forall>x \<in> set xs. 0 \<le> f x \<Longrightarrow> 0 \<le> (\<Sum>x\<leftarrow>xs. (f x :: int))"
  by (induction xs) auto

text \<open>
  Claim C4, as amended.  A sequence of bandwidth events keeps a registered record in
  the registry and moves its counters by the amounts decoded for its id, in wrapping
  \<^verbatim>\<open>int64\<close> arithmetic.  When every amount decoded for the id is non-negative and the
  counters with all the amounts added stay below \<open>2 ^ 63\<close>, \<open>BytesSent\<close> and
  \<open>BytesReceived\<close> after the sequence are their old values plus the sums of the amounts,
  and so not less than before.  The hypotheses pass to every part of the sequence, so
  the counters do not decrease between any two of its events.
\<close>

theorem bytes_nondecreasing_over_bandwidth_events:
  assumes "streams m sid = Some s"
    and "\<forall>l \<in> set ls. 0 \<le> sint (decodedSent sid l) \<and> 0 \<le> sint (decodedReceived sid l)"
    and "sint (BytesSent s) + (\<Sum>l\<leftarrow>ls. sint (decodedSent sid l)) < 2 ^ 63"
    and "sint (BytesReceived s) + (\<Sum>l\<leftarrow>ls. sint (decodedReceived sid l)) < 2 ^ 63"
  shows
    "map_option (\<lambda>r. sint (BytesSent r)) (streams (fold handleStreamBWEvent ls m) sid)
       = Some (sint (BytesSent s) + (\<Sum>l\<leftarrow>ls. sint (decodedSent sid l))) \<and>
     map_option (\<lambda>r. sint (BytesReceived r)) (streams (fold handleStreamBWEvent ls m) sid)
       = Some (sint (BytesReceived s) + (\<Sum>l\<leftarrow>ls. sint (decodedReceived sid l))) \<and>
     sint (BytesSent s) \<le> sint (BytesSent s) + (\<Sum>l\<leftarrow>ls. sint (decodedSent sid l)) \<and>
     sint (BytesReceived s) \<le> sint (BytesReceived s) + (\<Sum>l\<leftarrow>ls. sint (decodedReceived sid l))"
  using assms
proof (induction ls arbitrary: m s)
  case Nil
  then show ?case by simp
next
  case (Cons l ls)
  let ?s1 = "s\<lparr>BytesSent := BytesSent s + decodedSent sid l,
                BytesReceived := BytesReceived s + decodedReceived sid l\<rparr>"
  from Cons.prems(2) have rest: "\<forall>l \<in> set ls. 0 \<le> sint (decodedSent sid l) \<and> 0 \<le> sint (decodedReceived sid l)"
    and here: "0 \<le> sint (decodedSent sid l)" "0 \<le> sint (decodedReceived sid l)"
    by simp_all
  from rest have nn: "0 \<le> (\<Sum>l\<leftarrow>ls. sint (decodedSent sid l))"
    "0 \<le> (\<Sum>l\<leftarrow>ls. sint (decodedReceived sid l))"
    by (simp_all add: sum_list_nonneg_int)
  from Cons.prems(3) nn(1) have "sint (BytesSent s) + sint (decodedSent sid l) < 2 ^ 63" by simp
  with here(1) have a: "sint (BytesSent s + decodedSent sid l) = sint (BytesSent s) + sint (decodedSent sid l)"
    by (rule sint_add_nonneg)
  from Cons.prems(4) nn(2) have "sint (BytesReceived s) + sint (decodedReceived sid l) < 2 ^ 63" by simp
  with here(2) have b: "sint (BytesReceived s + decodedReceived sid l)
      = sint (BytesReceived s) + sint (decodedReceived sid l)"
    by (rule sint_add_nonneg)
  have st: "streams (handleStreamBWEvent l m) sid = Some ?s1"
    by (rule handleStreamBWEvent_record [OF Cons.prems(1)])
  have "sint (BytesSent ?s1) + (\<Sum>l\<leftarrow>ls. sint (decodedSent sid l)) < 2 ^ 63"
    and "sint (BytesReceived ?s1) + (\<Sum>l\<leftarrow>ls. sint (decodedReceived sid l)) < 2 ^ 63"
    using Cons.prems(3,4) a b by simp_all
  from Cons.IH [OF st rest this] a b here nn show ?case
    by (simp add: add.assoc)
qed

theorem bytes_nondecreasing_over_bandwidth_events_witness:
  "streams opened7 ''7'' = Some stream7 \<and>
   0 \<le> sint (decodedSent ''7'' ''650 STREAM_BW 7 100 250'') \<and>
   0 \<le> sint (decodedReceived ''7'' ''650 STREAM_BW 7 100 250'') \<and>
   0 \<le> sint (decodedSent ''7'' ''650 STREAM_BW 7 abc 250'') \<and>
   0 \<le> sint (decodedReceived ''7'' ''650 STREAM_BW 7 abc 250'') \<and>
   sint (BytesSent stream7) + (100 + 0) < 2 ^ 63 \<and>
   sint (BytesReceived stream7) + (250 + 250) < 2 ^ 63 \<and>
   map_option (\<lambda>r. sint (BytesSent r))
     (streams (fold handleStreamBWEvent [''650 STREAM_BW 7 100 250'', ''650 STREAM_BW 7 abc 250'']
        opened7) ''7'') = Some 100 \<and>
   map_option (\<lambda>r. sint (BytesReceived r))
     (streams (fold handleStreamBWEvent [''650 STREAM_BW 7 100 250'', ''650 STREAM_BW 7 abc 250'']
        opened7) ''7'') = Some 500"
proof -
  have h: "streams opened7 ''7'' = Some stream7"
    by (simp add: opened7_def)
  have d: "decodedSent ''7'' ''650 STREAM_BW 7 100 250'' = 100"
    "decodedReceived ''7'' ''650 STREAM_BW 7 100 250'' = 250"
    "decodedSent ''7'' ''650 STREAM_BW 7 abc 250'' = 0"
    "decodedReceived ''7'' ''650 STREAM_BW 7 abc 250'' = 250"
    by (simp_all add: decodedSent_def decodedReceived_def line_bw line_bw_abc ParseInt_examples)
  have b: "BytesSent stream7 = 0" "BytesReceived stream7 = 0"
    by (simp_all add: stream7_def)
  have p: "\<forall>l \<in> set [''650 STREAM_BW 7 100 250'', ''650 STREAM_BW 7 abc 250''].
      0 \<le> sint (decodedSent ''7'' l) \<and> 0 \<le> sint (decodedReceived ''7'' l)"
    by (simp add: d)
  have q: "sint (BytesSent stream7)
      + (\<Sum>l\<leftarrow>[''650 STREAM_BW 7 100 250'', ''650 STREAM_BW 7 abc 250'']. sint (decodedSent ''7'' l))
      < 2 ^ 63"
    "sint (BytesReceived stream7)
      + (\<Sum>l\<leftarrow>[''650 STREAM_BW 7 100 250'', ''650 STREAM_BW 7 abc 250'']. sint (decodedReceived ''7'' l))
      < 2 ^ 63"
    by (simp_all add: d b)
  from bytes_nondecreasing_over_bandwidth_events [OF h p q] h show ?thesis
    by (simp add: d b)
qed

text \<open>
  Claim C4 as stated fails: \<^verbatim>\<open>ParseInt\<close> reads a sign, so the line
  \<^verbatim>\<open>650 STREAM_BW 7 -5 0\<close> takes \<open>BytesSent\<close> of the freshly opened stream 7 from 0 down
  to -5.
\<close>

theorem negative_amount_lowers_BytesSent:
  "map_option (\<lambda>s. sint (BytesSent s))
     (streams (run [Line ''650 STREAM 7 NEW 0 www.example.com:443''] (NewTorMonitor [])) ''7'')
     = Some 0 \<and>
   map_option (\<lambda>s. sint (BytesSent s))
     (streams (run [Line ''650 STREAM 7 NEW 0 www.example.com:443'', Line ''650 STREAM_BW 7 -5 0'']
        (NewTorMonitor [])) ''7'')
     = Some (- 5)"
proof -
  have "run [Line ''650 STREAM 7 NEW 0 www.example.com:443'', Line ''650 STREAM_BW 7 -5 0'']
          (NewTorMonitor [])
        = handleStreamBWEvent ''650 STREAM_BW 7 -5 0'' opened7"
    by (simp add: run_def eventLoopBody_def line_new line_bw_neg handle_new)
  then show ?thesis
    by (simp add: run_new handleStreamBWEvent_def line_bw_neg ParseInt_examples opened7_def
        stream7_def Let_def)
qed


subsection \<open>Two terminal notifications for one id\<close>

text \<open>
  The monitor after \<^verbatim>\<open>650 STREAM 7 CLOSED REASON=DONE\<close> has been handled in \<open>opened7\<close>,
  and after the same line has been handled once more.
\<close>

lemma handle_closed_once:
  "handleStreamEvent ''650 STREAM 7 CLOSED REASON=DONE'' opened7 = closed7"
  by (simp add: handleStreamEvent_def line_closed lookupOrCreate_def opened7_def stream7_def
      closed7_def Let_def finalizeStream_def statusColor_def TrimPrefix_def mapGet_def)

lemma handle_closed_twice:
  "handleStreamEvent ''650 STREAM 7 CLOSED REASON=DONE'' closed7 = closedTwice7"
  by (simp add: handleStreamEvent_def line_closed lookupOrCreate_def closed7_def closedTwice7_def
      Let_def finalizeStream_def statusColor_def TrimPrefix_def mapGet_def mapAdd_def)

text \<open>
  Claim C1 does not hold of the code.  From the fresh monitor, stream 7 is opened and
  \<^verbatim>\<open>CLOSED\<close> arrives twice.  The first \<^verbatim>\<open>CLOSED\<close> finalizes the stream and deletes its record;
  the second finds no record, so it makes a new one, counts it as a stream opened, and
  finalizes and deletes that one too: the log holds two \<open>StreamFinished\<close> lines for id 7,
  and \<open>totalStreams\<close> and both \<^verbatim>\<open>streams_total\<close> counters stand at 2 for the one stream.
  Only the registry and \<open>activeStreams\<close> end where a no-op would leave them.
\<close>

theorem duplicate_closed_finalizes_twice:
  "run [Line ''650 STREAM 7 NEW 0 www.example.com:443'',
        Line ''650 STREAM 7 CLOSED REASON=DONE''] (NewTorMonitor []) = closed7 \<and>
   run [Line ''650 STREAM 7 NEW 0 www.example.com:443'',
        Line ''650 STREAM 7 CLOSED REASON=DONE'',
        Line ''650 STREAM 7 CLOSED REASON=DONE''] (NewTorMonitor []) = closedTwice7 \<and>
   logger closedTwice7 =
     logger closed7 @
       [StreamStatus ''7'' ''CLOSED'' [],
        StreamFinished ''7'' 0 0 0 [] ''END'',
        TotalNow 0 0 2 0] \<and>
   totalStreams closed7 = 1 \<and> totalStreams closedTwice7 = 2 \<and>
   mapGet (stats closed7) ''streams_total'' = 1 \<and>
   mapGet (stats closedTwice7) ''streams_total'' = 2 \<and>
   mapGet (report closed7) ''streams_total'' = 1 \<and>
   mapGet (report closedTwice7) ''streams_total'' = 2 \<and>
   streams closedTwice7 = streams closed7 \<and>
   activeStreams closedTwice7 = activeStreams closed7"
proof -
  have r1: "run [Line ''650 STREAM 7 NEW 0 www.example.com:443'',
                 Line ''650 STREAM 7 CLOSED REASON=DONE''] (NewTorMonitor []) = closed7"
    by (simp add: run_def eventLoopBody_def line_new line_closed handle_new handle_closed_once)
  have r2: "run [Line ''650 STREAM 7 NEW 0 www.example.com:443'',
                 Line ''650 STREAM 7 CLOSED REASON=DONE'',
                 Line ''650 STREAM 7 CLOSED REASON=DONE''] (NewTorMonitor []) = closedTwice7"
    by (simp add: run_def eventLoopBody_def line_new line_closed handle_new handle_closed_once
        handle_closed_twice)
  have rest: "logger closedTwice7 =
      logger closed7 @
        [StreamStatus ''7'' ''CLOSED'' [], StreamFinished ''7'' 0 0 0 [] ''END'', TotalNow 0 0 2 0]"
    "totalStreams closed7 = 1" "totalStreams closedTwice7 = 2"
    "mapGet (stats closed7) ''streams_total'' = 1"
    "mapGet (stats closedTwice7) ''streams_total'' = 2"
    "mapGet (report closed7) ''streams_total'' = 1"
    "mapGet (report closedTwice7) ''streams_total'' = 2"
    "streams closedTwice7 = streams closed7"
    "activeStreams closedTwice7 = activeStreams closed7"
    by (simp_all add: closed7_def closedTwice7_def mapGet_def)
  from r1 r2 rest show ?thesis by simp
qed

subsection \<open>The replies to the two setup commands\<close>

text \<open>
  The reply to \<^verbatim>\<open>AUTHENTICATE\<close> is checked: without \<^verbatim>\<open>"250 OK"\<close> in it \<^verbatim>\<open>Start\<close> fails.
  The reply to \<^verbatim>\<open>SETEVENTS\<close> is read and thrown away: once the first reply is accepted,
  \<^verbatim>\<open>Start\<close> returns \<^verbatim>\<open>nil\<close> whatever the connection delivers next, even nothing.
\<close>

lemma Start_checks_authenticate_reply:
  assumes "connectToTor env = Inr (reply # rest, addr)"
    and "findCookieFile env = Inr path"
    and "ReadFile env path = Inr data"
    and "\<not> Contains reply ''250 OK''"
  shows "fst (Start env m) = Some (AuthenticationFailed (TrimSpace reply))"
  using assms by (simp add: Start_def ReadString_def Let_def)

lemma Start_ignores_subscribe_reply:
  assumes "connectToTor env = Inr (reply # rest, addr)"
    and "findCookieFile env = Inr path"
    and "ReadFile env path = Inr data"
    and "Contains reply ''250 OK''"
  shows "fst (Start env m) = None"
  using assms by (simp add: Start_def ReadString_def Let_def)

text \<open>
  Claim C2 does not hold of the code.  The control port accepts the cookie and answers
  the subscription with \<^verbatim>\<open>552 Unrecognized event\<close>, a reply without \<^verbatim>\<open>"250 OK"\<close>; \<^verbatim>\<open>Start\<close>
  sends both commands, reads both replies and returns \<^verbatim>\<open>nil\<close>, having announced that the
  monitor has started.
\<close>

theorem refused_subscription_goes_unreported:
  "\<not> Contains (''552 Unrecognized event'' @ [CHR 0x0D, CHR 0x0A]) ''250 OK'' \<and>
   fst (Start refusingSubscription (NewTorMonitor [])) = None \<and>
   conn (snd (Start refusingSubscription (NewTorMonitor []))) =
     [''AUTHENTICATE 01ab'' @ [CHR 0x0D, CHR 0x0A],
      ''SETEVENTS STREAM STREAM_BW'' @ [CHR 0x0D, CHR 0x0A]] \<and>
   reader (snd (Start refusingSubscription (NewTorMonitor []))) = [] \<and>
   stdout (snd (Start refusingSubscription (NewTorMonitor []))) =
     [(ColorGreen, Authenticated ''127.0.0.1:9051''), (ColorCyan, MonitorStarted),
      (ColorCyan, LoggingToFile)]"
  by (simp add: Start_def refusingSubscription_def ReadString_def NewTorMonitor_def Let_def
      hextable_def)


end
